theory Spec2Isabelle
  imports Complex_Main "HOL-Library.Log_Nat"
begin

section \<open>Values, errors and tables\<close>

text \<open>
  The program (\<^verbatim>\<open>app.py\<close>) keeps two pandas tables, each persisted as a CSV file, and
  appends one day's snapshot to them. A table is modelled with its column labels and
  its rows; a cell holds what pandas would hold in it. Exceptions of the source are
  values of type \<open>error\<close>; a function that may raise returns \<open>error + 'a\<close>.
\<close>

datatype error =
  KeyError string
  | ValueError string
  | TypeError string
  | ProviderError string

text \<open>
  A binary64 number: a finite value (a rational that the format represents), the two
  infinities, or not-a-number. The sign of zero is not kept.
\<close>

datatype float64 = Finite rat | PInf | NInf | NaN

datatype cell = NoneV | IntV int | FltV float64 | StrV string | DateV int

record frame =
  columns :: "string list"
  rows :: "cell list list"

subsection \<open>binary64 arithmetic\<close>

definition round_half_even :: "rat \<Rightarrow> int" where
  "round_half_even q =
     (let n = \<lfloor>q\<rfloor>; d = q - of_int n
      in if d < 1 / 2 then n else if 1 / 2 < d then n + 1
         else if even n then n else n + 1)"

text \<open>\<open>ilog2 x\<close> is the exponent \<open>e\<close> with \<open>2 ^ e \<le> x < 2 ^ (e + 1)\<close>, for \<open>0 < x\<close>.\<close>

definition ilog2 :: "rat \<Rightarrow> int" where
  "ilog2 x =
     (let e = bitlen (fst (quotient_of x)) - bitlen (snd (quotient_of x))
      in if power_int 2 e \<le> x then e else e - 1)"

text \<open>
  Rounding of an exact result to binary64: to the nearest representable value, ties to
  the even significand, with gradual underflow below \<open>2 ^ -1022\<close>. The significand
  \<open>n\<close> has at most 53 bits at exponent \<open>e\<close>; a result of \<open>2 ^ 1024\<close> or more
  overflows to an infinity.
\<close>

definition fl :: "rat \<Rightarrow> float64" where
  "fl x =
     (if x = 0 then Finite 0
      else
        let e = max (ilog2 \<bar>x\<bar>) (- 1022);
            n = round_half_even (\<bar>x\<bar> / power_int 2 (e - 52))
        in if 1023 < e \<or> (e = 1023 \<and> n = 2 ^ 53) then (if 0 < x then PInf else NInf)
           else Finite (sgn x * (of_int n * power_int 2 (e - 52))))"

fun fneg :: "float64 \<Rightarrow> float64" where
  "fneg (Finite a) = Finite (- a)"
| "fneg PInf = NInf"
| "fneg NInf = PInf"
| "fneg NaN = NaN"

fun fadd :: "float64 \<Rightarrow> float64 \<Rightarrow> float64" where
  "fadd NaN _ = NaN"
| "fadd _ NaN = NaN"
| "fadd PInf NInf = NaN"
| "fadd NInf PInf = NaN"
| "fadd PInf _ = PInf"
| "fadd NInf _ = NInf"
| "fadd _ PInf = PInf"
| "fadd _ NInf = NInf"
| "fadd (Finite a) (Finite b) = fl (a + b)"

definition fsub :: "float64 \<Rightarrow> float64 \<Rightarrow> float64" where
  "fsub a b = fadd a (fneg b)"

definition fsign :: "float64 \<Rightarrow> int" where
  "fsign a = (case a of Finite x \<Rightarrow> (if x < 0 then - 1 else if x = 0 then 0 else 1)
               | PInf \<Rightarrow> 1 | NInf \<Rightarrow> - 1 | NaN \<Rightarrow> 0)"

definition inf_of_sign :: "int \<Rightarrow> float64" where
  "inf_of_sign s = (if s = 0 then NaN else if 0 < s then PInf else NInf)"

fun fmul :: "float64 \<Rightarrow> float64 \<Rightarrow> float64" where
  "fmul NaN _ = NaN"
| "fmul _ NaN = NaN"
| "fmul (Finite a) (Finite b) = fl (a * b)"
| "fmul a b = inf_of_sign (fsign a * fsign b)"

text \<open>
  Division. A finite value divided by zero is an infinity of the dividend's sign, and
  \<open>0 / 0\<close> is not-a-number; numpy warns and raises nothing. The divisors of this
  program are integer columns, whose zero is the positive one.
\<close>

fun fdiv :: "float64 \<Rightarrow> float64 \<Rightarrow> float64" where
  "fdiv NaN _ = NaN"
| "fdiv _ NaN = NaN"
| "fdiv (Finite a) (Finite b) = (if b = 0 then inf_of_sign (fsign (Finite a)) else fl (a / b))"
| "fdiv (Finite a) _ = Finite 0"
| "fdiv a (Finite b) = inf_of_sign (fsign a * (if b < 0 then - 1 else 1))"
| "fdiv _ _ = NaN"

definition float_of_int :: "int \<Rightarrow> float64" where
  "float_of_int n = fl (of_int n)"

subsection \<open>The pandas operations the program uses\<close>

text \<open>The value of column \<open>c\<close> in a row of \<open>df\<close>; a column the table lacks reads as NaN.\<close>

definition cell_at :: "frame \<Rightarrow> cell list \<Rightarrow> string \<Rightarrow> cell" where
  "cell_at df r c = (case map_of (zip (columns df) r) c of Some v \<Rightarrow> v | None \<Rightarrow> FltV NaN)"

text \<open>\<^verbatim>\<open>pd.DataFrame(columns=[...])\<close>: a table with the given columns and no row.\<close>

definition empty_frame :: "string list \<Rightarrow> frame" where
  "empty_frame cols = \<lparr>columns = cols, rows = []\<rparr>"

text \<open>
  \<^verbatim>\<open>pd.DataFrame(dicts)\<close> of a list of dictionaries: the columns are the keys in order
  of first appearance, so the empty list gives a table without columns.
\<close>

definition DataFrame :: "(string \<times> cell) list list \<Rightarrow> frame" where
  "DataFrame dicts =
     (let cols = rev (remdups (rev (concat (map (map fst) dicts))))
      in \<lparr>columns = cols,
          rows = map (\<lambda>d. map (\<lambda>c. case map_of d c of Some v \<Rightarrow> v | None \<Rightarrow> FltV NaN) cols) dicts\<rparr>)"

text \<open>\<^verbatim>\<open>df.empty\<close>: some axis has length 0.\<close>

definition df_empty :: "frame \<Rightarrow> bool" where
  "df_empty df = (rows df = [] \<or> columns df = [])"

text \<open>\<^verbatim>\<open>len(df)\<close>\<close>

definition len :: "frame \<Rightarrow> nat" where
  "len df = length (rows df)"

text \<open>\<^verbatim>\<open>df[c]\<close>: the column, or KeyError.\<close>

definition getitem :: "frame \<Rightarrow> string \<Rightarrow> error + cell list" where
  "getitem df c =
     (if c \<in> set (columns df) then Inr (map (\<lambda>r. cell_at df r c) (rows df))
      else Inl (KeyError c))"

text \<open>\<^verbatim>\<open>df[[c1, ..., cn]]\<close>: the sub-table of these columns, or KeyError.\<close>

definition select :: "frame \<Rightarrow> string list \<Rightarrow> error + frame" where
  "select df cs =
     (case filter (\<lambda>c. c \<notin> set (columns df)) cs of
        [] \<Rightarrow> Inr \<lparr>columns = cs, rows = map (\<lambda>r. map (cell_at df r) cs) (rows df)\<rparr>
      | c # _ \<Rightarrow> Inl (KeyError c))"

text \<open>\<^verbatim>\<open>df[c] = v\<close> with a scalar: overwrite the column, or add it as the last one.\<close>

definition setitem :: "frame \<Rightarrow> string \<Rightarrow> cell \<Rightarrow> frame" where
  "setitem df c v =
     (if c \<in> set (columns df)
      then \<lparr>columns = columns df,
            rows = map (\<lambda>r. map (\<lambda>k. if k = c then v else cell_at df r k) (columns df)) (rows df)\<rparr>
      else \<lparr>columns = columns df @ [c],
            rows = map (\<lambda>r. map (cell_at df r) (columns df) @ [v]) (rows df)\<rparr>)"

text \<open>
  \<^verbatim>\<open>pd.concat([a, b], ignore_index=True)\<close>: the rows of \<open>a\<close> then those of \<open>b\<close>,
  over the union of the columns (those of \<open>a\<close> first); a row has NaN in a column its
  table lacks.
\<close>

definition concat2 :: "frame \<Rightarrow> frame \<Rightarrow> frame" where
  "concat2 a b =
     (let cols = columns a @ filter (\<lambda>c. c \<notin> set (columns a)) (columns b)
      in \<lparr>columns = cols,
          rows = map (\<lambda>r. map (cell_at a r) cols) (rows a)
               @ map (\<lambda>r. map (cell_at b r) cols) (rows b)\<rparr>)"

text \<open>
  The sum that numpy takes of a binary64 array (\<^verbatim>\<open>add.reduce\<close>) is pairwise.
  Fewer than eight values are added to 0 one after the other. Up to 128 values are
  added in eight running sums, the value at position \<open>i\<close> to the sum \<open>i mod 8\<close>; the
  eight sums are then added in pairs, and the values after the last full group of
  eight are added one after the other. More than 128 values are split in two parts,
  the first a multiple of eight long, which are summed in the same way and added.
\<close>

function acc8 :: "float64 list \<Rightarrow> float64 list \<Rightarrow> float64 list \<times> float64 list" where
  "acc8 r xs =
     (if length xs < 8 then (r, xs)
      else acc8 (map2 fadd r (take 8 xs)) (drop 8 xs))"
  by pat_completeness auto
termination
  by (relation "measure (\<lambda>(r, xs). length xs)") auto

declare acc8.simps [simp del]

definition block_sum :: "float64 list \<Rightarrow> float64" where
  "block_sum xs =
     (case acc8 (take 8 xs) (drop 8 xs) of
        (r, rest) \<Rightarrow>
          foldl fadd
            (fadd (fadd (fadd (r ! 0) (r ! 1)) (fadd (r ! 2) (r ! 3)))
                  (fadd (fadd (r ! 4) (r ! 5)) (fadd (r ! 6) (r ! 7))))
            rest)"

function pairwise_sum :: "float64 list \<Rightarrow> float64" where
  "pairwise_sum xs =
     (if length xs < 8 then foldl fadd (Finite 0) xs
      else if length xs \<le> 128 then block_sum xs
      else fadd (pairwise_sum (take (length xs div 2 - length xs div 2 mod 8) xs))
                (pairwise_sum (drop (length xs div 2 - length xs div 2 mod 8) xs)))"
  by pat_completeness auto
termination
  by (relation "measure length") auto

declare pairwise_sum.simps [simp del]

text \<open>
  The reduction starts from 0 and adds the pairwise sum of each buffer it is handed.
  A binary64 array is handed over whole; a column that has to be converted to
  binary64 first (an integer column) is handed over in buffers of 8192 values.
\<close>

function chunks :: "nat \<Rightarrow> 'a list \<Rightarrow> 'a list list" where
  "chunks b xs = (if b = 0 \<or> xs = [] then [] else take b xs # chunks b (drop b xs))"
  by pat_completeness auto
termination
  by (relation "measure (\<lambda>(b, xs). length xs)") auto

declare chunks.simps [simp del]

definition numpy_sum :: "nat \<Rightarrow> float64 list \<Rightarrow> float64" where
  "numpy_sum b xs = foldl (\<lambda>s c. fadd s (pairwise_sum c)) (Finite 0) (chunks b xs)"

text \<open>
  \<^verbatim>\<open>Series.mean()\<close>: text does not add up; a missing value counts as 0 in the sum
  and is left out of the count; a column with no value left has mean NaN.
\<close>

fun is_number :: "cell \<Rightarrow> bool" where
  "is_number (StrV _) = False"
| "is_number (DateV _) = False"
| "is_number _ = True"

fun value64 :: "cell \<Rightarrow> float64" where
  "value64 (IntV n) = float_of_int n"
| "value64 (FltV x) = x"
| "value64 _ = NaN"

fun is_int64 :: "cell \<Rightarrow> bool" where
  "is_int64 (IntV _) = True"
| "is_int64 _ = False"

definition mean :: "cell list \<Rightarrow> error + float64" where
  "mean col =
     (if list_all is_number col
      then (let vs = map value64 col;
                n = length (filter (\<lambda>v. v \<noteq> NaN) vs);
                b = (if list_all is_int64 col then 8192 else length col)
            in if n = 0 then Inr NaN
               else Inr (fdiv (numpy_sum b (map (\<lambda>v. if v = NaN then Finite 0 else v) vs))
                              (float_of_int (int n))))
      else Inl (TypeError ''mean''))"

section \<open>Historical store\<close>

text \<open>
  The two CSV files. A file is absent (\<open>None\<close>) or holds the table last written to it
  by \<^verbatim>\<open>to_csv\<close>. Writing a file does not fail in this model.
\<close>

record store =
  playlist_history_csv :: "frame option"
  track_popularity_history_csv :: "frame option"

text \<open>The texts that \<^verbatim>\<open>read_csv\<close> takes for a missing value.\<close>

definition na_values :: "string list" where
  "na_values =
     ['''', ''#N/A'', ''#N/A N/A'', ''#NA'', ''-1.#IND'', ''-1.#QNAN'', ''-NaN'', ''-nan'',
      ''1.#IND'', ''1.#QNAN'', ''<NA>'', ''N/A'', ''NA'', ''NULL'', ''NaN'', ''None'',
      ''n/a'', ''nan'', ''null'']"

text \<open>
  A cell as it is read back from the file: \<^verbatim>\<open>to_csv\<close> writes \<^verbatim>\<open>None\<close> and NaN as
  the empty text, and \<^verbatim>\<open>read_csv\<close> reads the empty text and the other markers of a
  missing value as NaN, so a track named \<^verbatim>\<open>N/A\<close> comes back without its name.
  Numbers, dates of the \<open>date\<close> column and any other text are read back as written.
  What else the parser infers is not modelled: a column of texts that all read as
  numbers or as truth values, and an integer column with a missing value in it, whose
  integers pandas reads back as the binary64 numbers of the same value.
\<close>

fun read_back :: "cell \<Rightarrow> cell" where
  "read_back NoneV = FltV NaN"
| "read_back (StrV t) = (if t \<in> set na_values then FltV NaN else StrV t)"
| "read_back c = c"

text \<open>The table that \<^verbatim>\<open>read_csv\<close> parses from the text that \<^verbatim>\<open>to_csv\<close> wrote for \<open>f\<close>.\<close>

definition round_trip :: "frame \<Rightarrow> frame" where
  "round_trip f = \<lparr>columns = columns f, rows = map (map read_back) (rows f)\<rparr>"

text \<open>
  \<^verbatim>\<open>pd.read_csv(path, parse_dates=['date'])\<close> of a file that holds \<open>f\<close>; it raises
  ValueError on a file without a \<open>date\<close> column.
\<close>

definition read_csv :: "frame \<Rightarrow> error + frame" where
  "read_csv f =
     (if ''date'' \<in> set (columns f) then Inr (round_trip f)
      else Inl (ValueError ''parse_dates''))"

definition load_historical_data :: "store \<Rightarrow> error + frame" where
  "load_historical_data s =
     (case playlist_history_csv s of
        Some f \<Rightarrow> read_csv f
      | None \<Rightarrow> Inr (empty_frame [''date'', ''saves'', ''total_tracks'', ''avg_popularity'']))"

definition save_historical_data :: "frame \<Rightarrow> store \<Rightarrow> store" where
  "save_historical_data df s = s\<lparr>playlist_history_csv := Some df\<rparr>"

definition load_track_history :: "store \<Rightarrow> error + frame" where
  "load_track_history s =
     (case track_popularity_history_csv s of
        Some f \<Rightarrow> read_csv f
      | None \<Rightarrow> Inr (empty_frame [''date'', ''track_id'', ''track_name'', ''artist'', ''popularity'']))"

definition save_track_history :: "frame \<Rightarrow> store \<Rightarrow> store" where
  "save_track_history df s = s\<lparr>track_popularity_history_csv := Some df\<rparr>"

section \<open>Daily accumulator\<close>

text \<open>The part of the playlist object that the accumulator and the dashboard read.\<close>

record playlist_info =
  name :: string
  followers_total :: int
  owner_display_name :: string

text \<open>
  Lines 96 to 101 of \<^verbatim>\<open>update_daily_stats\<close>: the one-row table for today.
  \<^verbatim>\<open>tracks_df['popularity']\<close> raises KeyError on a table without that column.
\<close>

definition new_row :: "int \<Rightarrow> playlist_info \<Rightarrow> frame \<Rightarrow> error + frame" where
  "new_row today info tracks_df =
     (case getitem tracks_df ''popularity'' of
        Inl e \<Rightarrow> Inl e
      | Inr popularity \<Rightarrow>
          (case mean popularity of
             Inl e \<Rightarrow> Inl e
           | Inr avg \<Rightarrow>
               Inr (DataFrame [[(''date'', DateV today),
                                (''saves'', IntV (followers_total info)),
                                (''total_tracks'', IntV (int (len tracks_df))),
                                (''avg_popularity'', FltV avg)]])))"

text \<open>
  \<^verbatim>\<open>update_daily_stats\<close>, with the clock's \<open>today\<close> and the store passed in; it
  returns what the source returns or raises, and the store as the call leaves it.
\<close>

definition update_daily_stats ::
  "int \<Rightarrow> playlist_info \<Rightarrow> frame \<Rightarrow> store \<Rightarrow> (error + frame \<times> frame) \<times> store" where
  "update_daily_stats today info tracks_df s =
     (case load_historical_data s of
        Inl e \<Rightarrow> (Inl e, s)
      | Inr hist_df \<Rightarrow>
     (case load_track_history s of
        Inl e \<Rightarrow> (Inl e, s)
      | Inr track_hist_df \<Rightarrow>
     (case (if df_empty hist_df then Inr False
            else map_sum id (\<lambda>dates. DateV today \<in> set dates) (getitem hist_df ''date'')) of
        Inl e \<Rightarrow> (Inl e, s)
      | Inr True \<Rightarrow> (Inr (hist_df, track_hist_df), s)
      | Inr False \<Rightarrow>
     (case new_row today info tracks_df of
        Inl e \<Rightarrow> (Inl e, s)
      | Inr row \<Rightarrow>
          let hist_df' = concat2 hist_df row;
              s1 = save_historical_data hist_df' s
          in (case select tracks_df [''track_id'', ''name'', ''artist'', ''popularity''] of
                Inl e \<Rightarrow> (Inl e, s1)
              | Inr sub \<Rightarrow>
                  let today_tracks = setitem sub ''date'' (DateV today);
                      track_hist_df' = concat2 track_hist_df today_tracks;
                      s2 = save_track_history track_hist_df' s1
                  in (Inr (hist_df', track_hist_df'), s2))))))"

section \<open>Fetching and normalising the playlist\<close>

text \<open>
  What the provider returns, with the fields \<^verbatim>\<open>get_playlist_data\<close> reads. An item
  whose track was removed carries no track (\<^verbatim>\<open>null\<close>); a page carries its items and
  the address of the next page, if any.
\<close>

record artist =
  artist_name :: string

record album =
  album_name :: string
  release_date :: string

record track =
  track_id :: string
  track_name :: string
  artists :: "artist list"
  track_album :: album
  popularity :: int
  duration_ms :: int
  preview_url :: "string option"
  external_urls_spotify :: string

record item =
  track :: "track option"

record page =
  items :: "item list"
  next_url :: "string option"

text \<open>
  The client: the three requests the program makes. \<open>sp_next\<close> is given the page in
  hand and answers with the page its \<open>next\<close> address leads to. A request either fails
  or returns; the same request has the same answer throughout one fetch.
\<close>

record spotify =
  sp_playlist :: "string \<Rightarrow> error + playlist_info"
  sp_playlist_tracks :: "string \<Rightarrow> error + page"
  sp_next :: "page \<Rightarrow> error + page"

text \<open>\<^verbatim>\<open>str.split(sep)\<close> for a one-character separator, and \<^verbatim>\<open>sep.join(xs)\<close>.\<close>

fun split :: "char \<Rightarrow> string \<Rightarrow> string list" where
  "split sep [] = [[]]"
| "split sep (c # cs) =
     (if c = sep then [] # split sep cs
      else (case split sep cs of w # ws \<Rightarrow> (c # w) # ws | [] \<Rightarrow> [[c]]))"

fun join :: "string \<Rightarrow> string list \<Rightarrow> string" where
  "join sep [] = []"
| "join sep [x] = x"
| "join sep (x # y # ys) = x @ sep @ join sep (y # ys)"

definition get_playlist_id :: "string \<Rightarrow> string" where
  "get_playlist_id url = hd (split CHR ''?'' (last (split CHR ''/'' url)))"

text \<open>The truth value Python gives the \<open>next\<close> field: \<^verbatim>\<open>None\<close> and \<^verbatim>\<open>''\<close> are false.\<close>

definition truthy :: "string option \<Rightarrow> bool" where
  "truthy u = (case u of None \<Rightarrow> False | Some a \<Rightarrow> a \<noteq> [])"

text \<open>
  Lines 60 to 62, the \<^verbatim>\<open>while results['next']\<close> loop. It runs for as long as the
  provider hands out a next address, so it is a partial function: \<open>None\<close> is a run
  that never leaves the loop.
\<close>

partial_function (option) fetch_pages ::
  "(page \<Rightarrow> error + page) \<Rightarrow> page \<Rightarrow> item list \<Rightarrow> (error + item list) option" where
  "fetch_pages nxt results tracks =
     (if truthy (next_url results)
      then (case nxt results of
              Inl e \<Rightarrow> Some (Inl e)
            | Inr results' \<Rightarrow> fetch_pages nxt results' (tracks @ items results'))
      else Some (Inr tracks))"

text \<open>Lines 69 to 79: the dictionary built for one track.\<close>

definition track_dict :: "track \<Rightarrow> (string \<times> cell) list" where
  "track_dict t =
     [(''track_id'', StrV (track_id t)),
      (''name'', StrV (track_name t)),
      (''artist'', StrV (join '', '' (map artist_name (artists t)))),
      (''album'', StrV (album_name (track_album t))),
      (''popularity'', IntV (popularity t)),
      (''duration_ms'', IntV (duration_ms t)),
      (''release_date'', StrV (release_date (track_album t))),
      (''preview_url'', (case preview_url t of None \<Rightarrow> NoneV | Some u \<Rightarrow> StrV u)),
      (''external_url'', StrV (external_urls_spotify t))]"

text \<open>Lines 65 to 79: the loop over the items, appending to \<open>track_data\<close>.\<close>

fun extract_track_information ::
  "item list \<Rightarrow> (string \<times> cell) list list \<Rightarrow> (string \<times> cell) list list" where
  "extract_track_information [] track_data = track_data"
| "extract_track_information (item # tracks) track_data =
     (case track item of
        Some t \<Rightarrow> extract_track_information tracks (track_data @ [track_dict t])
      | None \<Rightarrow> extract_track_information tracks track_data)"

text \<open>
  \<^verbatim>\<open>get_playlist_data\<close>. The result cache of the decorator only replays an earlier
  answer and is left out.
\<close>

definition get_playlist_data ::
  "spotify \<Rightarrow> string \<Rightarrow> (error + playlist_info \<times> frame) option" where
  "get_playlist_data sp playlist_id =
     (case sp_playlist sp playlist_id of
        Inl e \<Rightarrow> Some (Inl e)
      | Inr playlist \<Rightarrow>
          (case sp_playlist_tracks sp playlist_id of
             Inl e \<Rightarrow> Some (Inl e)
           | Inr results \<Rightarrow>
               (case fetch_pages (sp_next sp) results ([] @ items results) of
                  None \<Rightarrow> None
                | Some (Inl e) \<Rightarrow> Some (Inl e)
                | Some (Inr tracks) \<Rightarrow>
                    Some (Inr (playlist, DataFrame (extract_track_information tracks []))))))"

section \<open>Growth tracking\<close>

text \<open>
  The first tab of \<^verbatim>\<open>main\<close> (lines 158 to 242) without its charts: the table
  sorted by date with the two derived columns, and the four metrics.
\<close>

text \<open>Arithmetic on \<^verbatim>\<open>int64\<close> wraps around.\<close>

definition wrap64 :: "int \<Rightarrow> int" where
  "wrap64 n = (n + 2 ^ 63) mod 2 ^ 64 - 2 ^ 63"

fun is_date :: "cell \<Rightarrow> bool" where
  "is_date (DateV _) = True"
| "is_date _ = False"

fun the_date :: "cell \<Rightarrow> int" where
  "the_date (DateV d) = d"
| "the_date _ = 0"

text \<open>
  \<^verbatim>\<open>df.sort_values(c)\<close> on a date column: ascending, rows without a date last. Rows
  of equal date keep their order here; pandas leaves their order open.
\<close>

definition sort_values :: "frame \<Rightarrow> string \<Rightarrow> error + frame" where
  "sort_values df c =
     (if c \<in> set (columns df)
      then Inr (df\<lparr>rows :=
                  sort_key (\<lambda>r. the_date (cell_at df r c))
                    (filter (\<lambda>r. is_date (cell_at df r c)) (rows df))
                  @ filter (\<lambda>r. \<not> is_date (cell_at df r c)) (rows df)\<rparr>)
      else Inl (KeyError c))"

text \<open>
  The values of an integer column. The \<open>saves\<close> column of every table the program
  writes holds follower counts and is one; a column holding anything else is outside
  what is modelled here and is answered with TypeError.
\<close>

fun int64_values :: "cell list \<Rightarrow> error + int list" where
  "int64_values [] = Inr []"
| "int64_values (IntV n # cs) = map_sum id ((#) n) (int64_values cs)"
| "int64_values (_ # cs) = Inl (TypeError ''int64'')"

text \<open>
  \<^verbatim>\<open>Series.diff()\<close> of an integer column: the first entry is NaN, the others are the
  integer differences, stored as binary64.
\<close>

definition diff :: "int list \<Rightarrow> float64 list" where
  "diff xs =
     (if xs = [] then []
      else NaN # map (\<lambda>(x, y). float_of_int (wrap64 (x - y))) (zip (tl xs) xs))"

text \<open>
  \<^verbatim>\<open>Series.pct_change()\<close> of an integer column: the column divided by itself shifted
  down one row, minus 1, in binary64; the first entry is NaN.
\<close>

definition pct_change :: "int list \<Rightarrow> float64 list" where
  "pct_change xs =
     (if xs = [] then []
      else NaN # map (\<lambda>(x, y). fsub (fdiv (float_of_int x) (float_of_int y)) (Finite 1))
                   (zip (tl xs) xs))"

text \<open>\<^verbatim>\<open>Series.fillna(0)\<close>\<close>

definition fillna :: "float64 list \<Rightarrow> float64 list" where
  "fillna xs = map (\<lambda>x. if x = NaN then Finite 0 else x) xs"

text \<open>\<^verbatim>\<open>df[c] = values\<close> with one value for each row.\<close>

definition setcolumn :: "frame \<Rightarrow> string \<Rightarrow> cell list \<Rightarrow> frame" where
  "setcolumn df c vs =
     (if c \<in> set (columns df)
      then \<lparr>columns = columns df,
            rows = map (\<lambda>(r, v). map (\<lambda>k. if k = c then v else cell_at df r k) (columns df))
                       (zip (rows df) vs)\<rparr>
      else \<lparr>columns = columns df @ [c],
            rows = map (\<lambda>(r, v). map (cell_at df r) (columns df) @ [v]) (zip (rows df) vs)\<rparr>)"

record growth =
  hist_df :: frame
  daily_growth :: "float64 list"
  growth_rates :: "float64 list"
  total_growth :: int
  avg_daily_growth :: float64
  growth_rate :: float64
  days_tracked :: nat

text \<open>
  \<open>None\<close> is the \<^verbatim>\<open>else\<close> branch (fewer than two records: nothing is computed).
  With more than one record the column is not empty, so its first and last entries
  exist. Between the derived columns and the metrics the charts are drawn; they read
  the columns \<open>date\<close>, \<open>saves\<close> and \<open>daily_growth\<close>, which exist by then, and
  \<open>avg_popularity\<close>, which raises KeyError when the table lacks it.
\<close>

definition growth_tracking :: "frame \<Rightarrow> (error + growth) option" where
  "growth_tracking df =
     (if 1 < len df
      then Some
        (case sort_values df ''date'' of
           Inl e \<Rightarrow> Inl e
         | Inr df1 \<Rightarrow>
        (case getitem df1 ''saves'' of
           Inl e \<Rightarrow> Inl e
         | Inr col \<Rightarrow>
        (case int64_values col of
           Inl e \<Rightarrow> Inl e
         | Inr saves \<Rightarrow>
             let dg = fillna (diff saves);
                 df2 = setcolumn df1 ''daily_growth'' (map FltV dg);
                 gr = fillna (map (\<lambda>x. fmul x (Finite 100)) (pct_change saves));
                 df3 = setcolumn df2 ''growth_rate'' (map FltV gr)
             in (case getitem df3 ''avg_popularity'' of
                   Inl e \<Rightarrow> Inl e
                 | Inr _ \<Rightarrow>
                (case mean (map FltV (tl dg)) of
                   Inl e \<Rightarrow> Inl e
                 | Inr avg \<Rightarrow>
                     Inr \<lparr>hist_df = df3,
                          daily_growth = dg,
                          growth_rates = gr,
                          total_growth = wrap64 (last saves - hd saves),
                          avg_daily_growth = avg,
                          growth_rate =
                            fmul (fsub (fdiv (float_of_int (last saves)) (float_of_int (hd saves)))
                                       (Finite 1))
                                 (Finite 100),
                          days_tracked = len df3\<rparr>)))))
      else None)"

section \<open>The script\<close>

text \<open>\<^verbatim>\<open>str(e)\<close>\<close>

fun str :: "error \<Rightarrow> string" where
  "str (KeyError k) = [CHR 0x27] @ k @ [CHR 0x27]"
| "str (ValueError m) = m"
| "str (TypeError m) = m"
| "str (ProviderError m) = m"

text \<open>
  How a run of the script ends: halted by \<^verbatim>\<open>st.stop()\<close> after an error message,
  ended by an exception nothing catches, or rendered from the tables and the growth
  metrics (the charts and the other tabs are presentation).
\<close>

datatype outcome =
  Stopped string
  | Raised error
  | Rendered "frame \<times> frame" "growth option"

definition playlist_url :: string where
  "playlist_url = ''https://open.spotify.com/playlist/4fdUWePS7vpy3r1GiZtv1L''"

text \<open>
  \<^verbatim>\<open>main\<close>, given what \<^verbatim>\<open>init_spotify()\<close> returned or raised, the clock's day and
  the store. \<open>None\<close> is a run whose fetch never ends.
\<close>

definition main :: "error + spotify \<Rightarrow> int \<Rightarrow> store \<Rightarrow> (outcome \<times> store) option" where
  "main init today s =
     (case init of
        Inl e \<Rightarrow>
          Some (Stopped ''Failed to initialize Spotify client. Please check your credentials in Streamlit secrets.'', s)
      | Inr sp \<Rightarrow>
          (case get_playlist_data sp (get_playlist_id playlist_url) of
             None \<Rightarrow> None
           | Some (Inl e) \<Rightarrow> Some (Stopped (''Failed to fetch playlist data: '' @ str e), s)
           | Some (Inr (playlist_info, tracks_df)) \<Rightarrow>
               (case update_daily_stats today playlist_info tracks_df s of
                  (Inl e, s') \<Rightarrow> Some (Raised e, s')
                | (Inr (hist, track_hist), s') \<Rightarrow>
                    (case growth_tracking hist of
                       None \<Rightarrow> Some (Rendered (hist, track_hist) None, s')
                     | Some (Inl e) \<Rightarrow> Some (Raised e, s')
                     | Some (Inr g) \<Rightarrow> Some (Rendered (hist, track_hist) (Some g), s')))))"

section \<open>What the properties speak of\<close>

text \<open>The records of a table that carry the date \<open>D\<close>.\<close>

definition records_on :: "frame \<Rightarrow> int \<Rightarrow> cell list list" where
  "records_on df D = filter (\<lambda>r. cell_at df r ''date'' = DateV D) (rows df)"

text \<open>The store of a first run: neither file exists.\<close>

definition fresh_store :: store where
  "fresh_store = \<lparr>playlist_history_csv = None, track_popularity_history_csv = None\<rparr>"

text \<open>The stores that calls of \<open>update_daily_stats\<close> which return lead to, from the first run on.\<close>

inductive reachable :: "store \<Rightarrow> bool" where
  fresh: "reachable fresh_store"
| call: "reachable s \<Longrightarrow> update_daily_stats today info tracks_df s = (Inr r, s') \<Longrightarrow> reachable s'"

subsection \<open>A small playlist, used to run the definitions\<close>

definition example_info :: "int \<Rightarrow> playlist_info" where
  "example_info n = \<lparr>name = ''South African Music'', followers_total = n, owner_display_name = ''owner''\<rparr>"

definition example_track :: "string \<Rightarrow> string list \<Rightarrow> int \<Rightarrow> track" where
  "example_track i as p =
     \<lparr>track_id = i, track_name = ''song '' @ i, artists = map (\<lambda>a. \<lparr>artist_name = a\<rparr>) as,
      track_album = \<lparr>album_name = ''album'', release_date = ''2020''\<rparr>,
      popularity = p, duration_ms = 180000, preview_url = None,
      external_urls_spotify = ''https://open.spotify.com/track/'' @ i\<rparr>"

definition example_items :: "item list" where
  "example_items =
     [\<lparr>track = Some (example_track ''t1'' [''Master KG'', ''Nomcebo''] 70)\<rparr>,
      \<lparr>track = None\<rparr>,
      \<lparr>track = Some (example_track ''t2'' [''Black Coffee''] 61)\<rparr>]"

definition example_tracks_df :: frame where
  "example_tracks_df = DataFrame (extract_track_information example_items [])"

text \<open>The two tables after a first run on day 739038 (2024-06-01) with 10 followers.\<close>

definition example_hist :: frame where
  "example_hist =
     \<lparr>columns = [''date'', ''saves'', ''total_tracks'', ''avg_popularity''],
      rows = [[DateV 739038, IntV 10, IntV 2, FltV (Finite (131 / 2))]]\<rparr>"

definition example_track_hist :: frame where
  "example_track_hist =
     \<lparr>columns = [''date'', ''track_id'', ''track_name'', ''artist'', ''popularity'', ''name''],
      rows = [[DateV 739038, StrV ''t1'', FltV NaN, StrV ''Master KG, Nomcebo'', IntV 70,
               StrV ''song t1''],
              [DateV 739038, StrV ''t2'', FltV NaN, StrV ''Black Coffee'', IntV 61,
               StrV ''song t2'']]\<rparr>"

definition example_store :: store where
  "example_store = \<lparr>playlist_history_csv = Some example_hist,
                    track_popularity_history_csv = Some example_track_hist\<rparr>"

text \<open>The tables after the run of the next day, 739039, with 12 followers.\<close>

definition example_hist2 :: frame where
  "example_hist2 =
     \<lparr>columns = [''date'', ''saves'', ''total_tracks'', ''avg_popularity''],
      rows = [[DateV 739038, IntV 10, IntV 2, FltV (Finite (131 / 2))],
              [DateV 739039, IntV 12, IntV 2, FltV (Finite (131 / 2))]]\<rparr>"

definition example_track_hist2 :: frame where
  "example_track_hist2 =
     \<lparr>columns = [''date'', ''track_id'', ''track_name'', ''artist'', ''popularity'', ''name''],
      rows = [[DateV 739038, StrV ''t1'', FltV NaN, StrV ''Master KG, Nomcebo'', IntV 70,
               StrV ''song t1''],
              [DateV 739038, StrV ''t2'', FltV NaN, StrV ''Black Coffee'', IntV 61,
               StrV ''song t2''],
              [DateV 739039, StrV ''t1'', FltV NaN, StrV ''Master KG, Nomcebo'', IntV 70,
               StrV ''song t1''],
              [DateV 739039, StrV ''t2'', FltV NaN, StrV ''Black Coffee'', IntV 61,
               StrV ''song t2'']]\<rparr>"

definition example_store2 :: store where
  "example_store2 = \<lparr>playlist_history_csv = Some example_hist2,
                     track_popularity_history_csv = Some example_track_hist2\<rparr>"






text \<open>
  Date synchronisation as the specification words it: every playlist record with a
  date \<open>D\<close> has, as its \<open>total_tracks\<close>, the number of track records dated \<open>D\<close>.
\<close>

definition synchronized :: "frame \<Rightarrow> frame \<Rightarrow> bool" where
  "synchronized hist thist =
     list_all (\<lambda>r. case cell_at hist r ''date'' of
                      DateV D \<Rightarrow> cell_at hist r ''total_tracks''
                                   = IntV (int (length (records_on thist D)))
                    | _ \<Rightarrow> True)
              (rows hist)"

text \<open>The converse direction: every dated track record has a playlist record of its date.\<close>

definition tracks_covered :: "frame \<Rightarrow> frame \<Rightarrow> bool" where
  "tracks_covered hist thist =
     list_all (\<lambda>t. case cell_at thist t ''date'' of
                      DateV D \<Rightarrow> records_on hist D \<noteq> []
                    | _ \<Rightarrow> True)
              (rows thist)"

text \<open>
  A store whose playlist file is missing while the track file holds a record dated
  739038, and the track table after a run on that day.
\<close>

definition orphan_tracks :: frame where
  "orphan_tracks =
     \<lparr>columns = [''date'', ''track_id'', ''track_name'', ''artist'', ''popularity''],
      rows = [[DateV 739038, StrV ''t0'', StrV ''old song'', StrV ''someone'', IntV 5]]\<rparr>"

definition orphan_store :: store where
  "orphan_store = \<lparr>playlist_history_csv = None, track_popularity_history_csv = Some orphan_tracks\<rparr>"

definition orphan_tracks_after :: frame where
  "orphan_tracks_after =
     \<lparr>columns = [''date'', ''track_id'', ''track_name'', ''artist'', ''popularity'', ''name''],
      rows = [[DateV 739038, StrV ''t0'', StrV ''old song'', StrV ''someone'', IntV 5, FltV NaN],
              [DateV 739038, StrV ''t1'', FltV NaN, StrV ''Master KG, Nomcebo'', IntV 70,
               StrV ''song t1''],
              [DateV 739038, StrV ''t2'', FltV NaN, StrV ''Black Coffee'', IntV 61,
               StrV ''song t2'']]\<rparr>"

text \<open>
  A provider that returns the tracks across the pages \<open>p # qs\<close>: each page but the last
  points to the next one, which the provider returns, and the last page has no next
  address.
\<close>

fun serves :: "(page \<Rightarrow> error + page) \<Rightarrow> page \<Rightarrow> page list \<Rightarrow> bool" where
  "serves nxt p [] = (\<not> truthy (next_url p))"
| "serves nxt p (q # qs) = (truthy (next_url p) \<and> nxt p = Inr q \<and> serves nxt q qs)"

text \<open>A provider whose request for the page after \<open>p # qs\<close> fails with \<open>e\<close>.\<close>

fun fails_after :: "(page \<Rightarrow> error + page) \<Rightarrow> page \<Rightarrow> page list \<Rightarrow> error \<Rightarrow> bool" where
  "fails_after nxt p [] e = (truthy (next_url p) \<and> nxt p = Inl e)"
| "fails_after nxt p (q # qs) e = (truthy (next_url p) \<and> nxt p = Inr q \<and> fails_after nxt q qs e)"

text \<open>The tracks of the items that carry one, in the order of the items.\<close>

definition present :: "item list \<Rightarrow> track list" where
  "present its = map (the \<circ> track) (filter (\<lambda>i. track i \<noteq> None) its)"

text \<open>The artists' display names of a track, joined by a comma and a space.\<close>

definition artist_string :: "track \<Rightarrow> cell" where
  "artist_string t = StrV (join '', '' (map artist_name (artists t)))"

text \<open>The keys of \<open>track_dict\<close>, in order.\<close>

definition track_columns :: "string list" where
  "track_columns = [''track_id'', ''name'', ''artist'', ''album'', ''popularity'',
                    ''duration_ms'', ''release_date'', ''preview_url'', ''external_url'']"

text \<open>
  Three pages of a provider, the second track of the playlist removed and its first
  track listed twice; a provider that serves them; and providers whose request number
  \<open>k\<close> fails.
\<close>

definition page3 :: page where
  "page3 = \<lparr>items = [\<lparr>track = Some (example_track ''t1'' [''Master KG'', ''Nomcebo''] 70)\<rparr>],
            next_url = None\<rparr>"

definition page2 :: page where
  "page2 = \<lparr>items = [\<lparr>track = Some (example_track ''t2'' [''Black Coffee''] 61)\<rparr>],
            next_url = Some ''page3''\<rparr>"

definition page1 :: page where
  "page1 = \<lparr>items = [\<lparr>track = Some (example_track ''t1'' [''Master KG'', ''Nomcebo''] 70)\<rparr>,
                     \<lparr>track = None\<rparr>],
            next_url = Some ''page2''\<rparr>"

definition example_sp :: spotify where
  "example_sp =
     \<lparr>sp_playlist = (\<lambda>_. Inr (example_info 10)),
      sp_playlist_tracks = (\<lambda>_. Inr page1),
      sp_next = (\<lambda>p. if next_url p = Some ''page2'' then Inr page2
                     else if next_url p = Some ''page3'' then Inr page3
                     else Inl (ProviderError ''not found''))\<rparr>"

definition failing_sp :: "nat \<Rightarrow> spotify" where
  "failing_sp k =
     \<lparr>sp_playlist = (\<lambda>_. if k = 0 then Inl (ProviderError ''timeout'') else Inr (example_info 10)),
      sp_playlist_tracks = (\<lambda>_. if k = 1 then Inl (ProviderError ''timeout'') else Inr page1),
      sp_next = (\<lambda>p. if next_url p = Some ''page2'' then Inr page2
                     else Inl (ProviderError ''timeout''))\<rparr>"

text \<open>A playlist without tracks.\<close>

definition empty_playlist_sp :: spotify where
  "empty_playlist_sp =
     \<lparr>sp_playlist = (\<lambda>_. Inr (example_info 42)),
      sp_playlist_tracks = (\<lambda>_. Inr \<lparr>items = [], next_url = None\<rparr>),
      sp_next = (\<lambda>_. Inl (ProviderError ''no page''))\<rparr>"

text \<open>The percentage change from \<open>b\<close> to \<open>a\<close> as the program computes it: \<open>(a / b - 1) * 100\<close> in binary64.\<close>

definition percent_change :: "int \<Rightarrow> int \<Rightarrow> float64" where
  "percent_change a b = fmul (fsub (fdiv (float_of_int a) (float_of_int b)) (Finite 1)) (Finite 100)"

text \<open>
  The playlist table of the specification's example: 100, 150 and 135 saves on
  2024-01-01, 2024-01-02 and 2024-01-03 (days 738886 to 738888), here with the second
  day stored first; and the same table sorted by date.
\<close>

definition trend_example :: frame where
  "trend_example =
     \<lparr>columns = [''date'', ''saves'', ''total_tracks'', ''avg_popularity''],
      rows = [[DateV 738887, IntV 150, IntV 2, FltV (Finite 60)],
              [DateV 738886, IntV 100, IntV 2, FltV (Finite 60)],
              [DateV 738888, IntV 135, IntV 2, FltV (Finite 60)]]\<rparr>"

definition trend_sorted :: frame where
  "trend_sorted =
     \<lparr>columns = [''date'', ''saves'', ''total_tracks'', ''avg_popularity''],
      rows = [[DateV 738886, IntV 100, IntV 2, FltV (Finite 60)],
              [DateV 738887, IntV 150, IntV 2, FltV (Finite 60)],
              [DateV 738888, IntV 135, IntV 2, FltV (Finite 60)]]\<rparr>"

text \<open>Integers as a binary64 column.\<close>

abbreviation ints :: "int list \<Rightarrow> float64 list" where
  "ints ds \<equiv> map (\<lambda>d. Finite (of_int d)) ds"

text \<open>
  A playlist table of two records whose second follower count is \<open>2 ^ 53 + 1\<close>.
\<close>

definition trend_large :: frame where
  "trend_large =
     \<lparr>columns = [''date'', ''saves'', ''total_tracks'', ''avg_popularity''],
      rows = [[DateV 738886, IntV 0, IntV 2, FltV (Finite 60)],
              [DateV 738887, IntV 9007199254740993, IntV 2, FltV (Finite 60)]]\<rparr>"

section \<open>Tables: facts used throughout\<close>

lemma cell_at_map:
  "cell_at \<lparr>columns = cs, rows = R\<rparr> (map f cs) c = (if c \<in> set cs then f c else FltV NaN)"
  by (simp add: cell_at_def map_of_zip_map)

lemma cell_at_absent: "c \<notin> set (columns df) \<Longrightarrow> cell_at df r c = FltV NaN"
  unfolding cell_at_def
  by (metis (no_types, lifting) map_of_SomeD option.case_eq_if option.collapse set_zip_leftD)

lemma cell_at_concat2_left:
  "cell_at (concat2 a b) (map (cell_at a r) (columns (concat2 a b))) c = cell_at a r c"
  unfolding concat2_def Let_def frame.simps cell_at_map
  by (auto simp: cell_at_absent)

lemma cell_at_concat2_right:
  "c \<in> set (columns b) \<Longrightarrow>
   cell_at (concat2 a b) (map (cell_at b r) (columns (concat2 a b))) c = cell_at b r c"
  unfolding concat2_def Let_def frame.simps cell_at_map
  by auto

lemma rows_concat2:
  "rows (concat2 a b) = map (\<lambda>r. map (cell_at a r) (columns (concat2 a b))) (rows a)
                      @ map (\<lambda>r. map (cell_at b r) (columns (concat2 a b))) (rows b)"
  by (simp add: concat2_def Let_def)

lemma columns_concat2:
  "set (columns (concat2 a b)) = set (columns a) \<union> set (columns b)"
  by (auto simp: concat2_def Let_def)

lemma records_on_concat2:
  assumes "''date'' \<in> set (columns b)"
  shows "length (records_on (concat2 a b) D) = length (records_on a D) + length (records_on b D)"
  unfolding records_on_def rows_concat2 filter_append filter_map length_append length_map o_def
  using assms by (simp add: cell_at_concat2_left cell_at_concat2_right)

lemma update_daily_stats_Inr:
  assumes "update_daily_stats today info df s = (Inr (h', t'), s')"
  shows "\<exists>hist thist. load_historical_data s = Inr hist \<and> load_track_history s = Inr thist \<and>
           ((\<not> df_empty hist \<and> DateV today \<in> set (map (\<lambda>r. cell_at hist r ''date'') (rows hist))
               \<and> h' = hist \<and> t' = thist \<and> s' = s)
          \<or> ((df_empty hist \<or> DateV today \<notin> set (map (\<lambda>r. cell_at hist r ''date'') (rows hist)))
               \<and> (\<exists>row sub. new_row today info df = Inr row
                     \<and> select df [''track_id'', ''name'', ''artist'', ''popularity''] = Inr sub
                     \<and> h' = concat2 hist row
                     \<and> t' = concat2 thist (setitem sub ''date'' (DateV today))
                     \<and> s' = \<lparr>playlist_history_csv = Some h', track_popularity_history_csv = Some t'\<rparr>)))"
  using assms
  unfolding update_daily_stats_def
  by (auto simp: Let_def getitem_def save_historical_data_def save_track_history_def
           split: sum.splits if_splits bool.splits)

lemma columns_round_trip: "columns (round_trip f) = columns f"
  by (simp add: round_trip_def)

lemma rows_round_trip: "rows (round_trip f) = map (map read_back) (rows f)"
  by (simp add: round_trip_def)

lemma read_back_date: "read_back c = DateV D \<longleftrightarrow> c = DateV D"
  by (cases c) auto

lemma read_back_int: "c = IntV n \<Longrightarrow> read_back c = IntV n"
  by simp

lemma cell_at_round_trip:
  "cell_at (round_trip f) (map read_back r) c = read_back (cell_at f r c)"
proof -
  have "map_of (zip (columns f) (map read_back r)) c
        = map_option read_back (map_of (zip (columns f) r) c)"
    by (simp add: zip_map2 map_of_map)
  then show ?thesis
    by (simp add: cell_at_def columns_round_trip split: option.splits)
qed

lemma records_on_round_trip:
  "records_on (round_trip f) D = map (map read_back) (records_on f D)"
  by (simp add: records_on_def rows_round_trip filter_map o_def cell_at_round_trip read_back_date)

lemma loaded_has_date: "load_historical_data s = Inr hist \<Longrightarrow> ''date'' \<in> set (columns hist)"
  by (auto simp: load_historical_data_def read_csv_def empty_frame_def columns_round_trip
           split: option.splits if_splits)

lemma loaded_track_has_date: "load_track_history s = Inr thist \<Longrightarrow> ''date'' \<in> set (columns thist)"
  by (auto simp: load_track_history_def read_csv_def empty_frame_def columns_round_trip
           split: option.splits if_splits)


lemma new_row_Inr:
  assumes "new_row today info df = Inr row"
  shows "\<exists>avg. row = \<lparr>columns = [''date'', ''saves'', ''total_tracks'', ''avg_popularity''],
                       rows = [[DateV today, IntV (followers_total info), IntV (int (len df)), FltV avg]]\<rparr>"
  using assms
  by (auto simp: new_row_def DataFrame_def split: sum.splits)

lemma today_tracks_shape:
  assumes "select df [''track_id'', ''name'', ''artist'', ''popularity''] = Inr sub"
  shows "columns (setitem sub ''date'' v) = [''track_id'', ''name'', ''artist'', ''popularity'', ''date'']"
    and "length (rows (setitem sub ''date'' v)) = len df"
    and "\<forall>r \<in> set (rows (setitem sub ''date'' v)). cell_at (setitem sub ''date'' v) r ''date'' = v"
  using assms
  by (auto simp: select_def setitem_def len_def cell_at_def split: list.splits)


section \<open>Daily accumulator: what a call does\<close>

lemma records_on_nonempty:
  "records_on df D \<noteq> [] \<longleftrightarrow> DateV D \<in> set (map (\<lambda>r. cell_at df r ''date'') (rows df))"
  by (force simp: records_on_def filter_empty_conv)

lemma appended_store_loads:
  assumes "new_row today info df = Inr row"
    and "select df [''track_id'', ''name'', ''artist'', ''popularity''] = Inr sub"
  shows "load_historical_data \<lparr>playlist_history_csv = Some (concat2 hist row),
            track_popularity_history_csv = Some t'\<rparr> = Inr (round_trip (concat2 hist row))"
    and "load_track_history \<lparr>playlist_history_csv = Some h',
            track_popularity_history_csv = Some (concat2 thist (setitem sub ''date'' v))\<rparr>
         = Inr (round_trip (concat2 thist (setitem sub ''date'' v)))"
    and "records_on (round_trip (concat2 hist row)) today \<noteq> []"
proof -
  from assms(1) obtain avg where row:
    "row = \<lparr>columns = [''date'', ''saves'', ''total_tracks'', ''avg_popularity''],
            rows = [[DateV today, IntV (followers_total info), IntV (int (len df)), FltV avg]]\<rparr>"
    using new_row_Inr by blast
  have d: "''date'' \<in> set (columns row)" by (simp add: row)
  show "load_historical_data \<lparr>playlist_history_csv = Some (concat2 hist row),
            track_popularity_history_csv = Some t'\<rparr> = Inr (round_trip (concat2 hist row))"
    using d by (simp add: load_historical_data_def read_csv_def columns_concat2)
  show "load_track_history \<lparr>playlist_history_csv = Some h',
            track_popularity_history_csv = Some (concat2 thist (setitem sub ''date'' v))\<rparr>
         = Inr (round_trip (concat2 thist (setitem sub ''date'' v)))"
    using today_tracks_shape(1)[OF assms(2), of v]
    by (simp add: load_track_history_def read_csv_def columns_concat2)
  have "length (records_on row today) = 1"
    by (simp add: row records_on_def cell_at_def)
  then have "length (records_on (concat2 hist row) today) \<noteq> 0"
    using records_on_concat2[OF d, of hist today] by simp
  then show "records_on (round_trip (concat2 hist row)) today \<noteq> []"
    by (simp add: records_on_round_trip)
qed

lemma records_on_not_recorded:
  assumes "df_empty hist \<or> DateV today \<notin> set (map (\<lambda>r. cell_at hist r ''date'') (rows hist))"
  shows "records_on hist today = []"
proof (cases "DateV today \<in> set (map (\<lambda>r. cell_at hist r ''date'') (rows hist))")
  case False
  then show ?thesis using records_on_nonempty by blast
next
  case True
  then have "rows hist \<noteq> []" by auto
  with assms True have "columns hist = []" by (auto simp: df_empty_def)
  then have "\<And>r. cell_at hist r ''date'' = FltV NaN" by (simp add: cell_at_absent)
  with True show ?thesis by auto
qed

lemma update_preserves_unique:
  assumes "update_daily_stats today info df s = (Inr (h', t'), s')"
    and "load_historical_data s = Inr hist"
    and "\<And>D. length (records_on hist D) \<le> 1"
    and "load_historical_data s' = Inr h2"
  shows "length (records_on h2 D) \<le> 1"
proof -
  from update_daily_stats_Inr[OF assms(1)] assms(2)
  obtain thist where l: "load_track_history s = Inr thist"
    and c: "(h' = hist \<and> t' = thist \<and> s' = s)
          \<or> ((df_empty hist \<or> DateV today \<notin> set (map (\<lambda>r. cell_at hist r ''date'') (rows hist)))
               \<and> (\<exists>row sub. new_row today info df = Inr row
                     \<and> select df [''track_id'', ''name'', ''artist'', ''popularity''] = Inr sub
                     \<and> h' = concat2 hist row
                     \<and> t' = concat2 thist (setitem sub ''date'' (DateV today))
                     \<and> s' = \<lparr>playlist_history_csv = Some h', track_popularity_history_csv = Some t'\<rparr>))"
    by auto
  from c show ?thesis
  proof
    assume "h' = hist \<and> t' = thist \<and> s' = s"
    then show ?thesis using assms(2,3,4) by simp
  next
    assume b: "(df_empty hist \<or> DateV today \<notin> set (map (\<lambda>r. cell_at hist r ''date'') (rows hist)))
               \<and> (\<exists>row sub. new_row today info df = Inr row
                     \<and> select df [''track_id'', ''name'', ''artist'', ''popularity''] = Inr sub
                     \<and> h' = concat2 hist row
                     \<and> t' = concat2 thist (setitem sub ''date'' (DateV today))
                     \<and> s' = \<lparr>playlist_history_csv = Some h', track_popularity_history_csv = Some t'\<rparr>)"
    then obtain row sub where a: "new_row today info df = Inr row"
      "select df [''track_id'', ''name'', ''artist'', ''popularity''] = Inr sub"
      "h' = concat2 hist row" "t' = concat2 thist (setitem sub ''date'' (DateV today))"
      "s' = \<lparr>playlist_history_csv = Some h', track_popularity_history_csv = Some t'\<rparr>"
      by blast
    from a(1) obtain avg where row:
      "row = \<lparr>columns = [''date'', ''saves'', ''total_tracks'', ''avg_popularity''],
              rows = [[DateV today, IntV (followers_total info), IntV (int (len df)), FltV avg]]\<rparr>"
      using new_row_Inr by blast
    have d: "''date'' \<in> set (columns row)" by (simp add: row)
    have n: "length (records_on row D) = (if D = today then 1 else 0)"
      by (simp add: row records_on_def cell_at_def)
    have z: "records_on hist today = []" using b records_on_not_recorded by blast
    have u: "length (records_on h' D) \<le> 1"
      using records_on_concat2[OF d, of hist D] n z assms(3)[of D] a(3) by auto
    have "load_historical_data s' = Inr (round_trip h')"
      using appended_store_loads(1)[OF a(1,2)] a(3,5) by simp
    then have "h2 = round_trip h'" using assms(4) by simp
    then show ?thesis using u by (simp add: records_on_round_trip)
  qed
qed

subsection \<open>Evaluations of the example\<close>

lemma example_first_run:
  "update_daily_stats 739038 (example_info 10) example_tracks_df fresh_store
   = (Inr (example_hist, example_track_hist), example_store)"
  by code_simp

lemma example_store_loads:
  "load_historical_data example_store = Inr example_hist"
  "load_track_history example_store = Inr example_track_hist"
  by code_simp+


lemma example_second_run:
  "update_daily_stats 739039 (example_info 12) example_tracks_df example_store
   = (Inr (example_hist2, example_track_hist2), example_store2)"
  by code_simp

section \<open>Idempotence within a day\<close>



section \<open>One record for each date\<close>

text \<open>
  Claim C2. In every store reached from the first run by calls of
  \<open>update_daily_stats\<close> that return, the playlist table holds at most one record for
  any date \<open>D\<close>: each call keeps the dates of the playlist table distinct.
\<close>

theorem playlist_table_one_record_per_date:
  "reachable s \<Longrightarrow> load_historical_data s = Inr hist \<Longrightarrow> length (records_on hist D) \<le> 1"
proof (induction arbitrary: hist D rule: reachable.induct)
  case fresh
  then show ?case
    by (auto simp: load_historical_data_def fresh_store_def empty_frame_def records_on_def)
next
  case (call s today info tracks_df r s')
  obtain h' t' where r: "r = (h', t')" by (cases r)
  from update_daily_stats_Inr[OF call.hyps(2)[unfolded r]]
  obtain hist0 where l: "load_historical_data s = Inr hist0" by blast
  have u: "\<And>D. length (records_on hist0 D) \<le> 1" using call.IH[OF l] .
  show ?case
    using update_preserves_unique[OF call.hyps(2)[unfolded r] l u call.prems] .
qed

theorem playlist_table_one_record_per_date_witness:
  "reachable example_store2
   \<and> load_historical_data example_store2 = Inr example_hist2
   \<and> length (records_on example_hist2 739038) \<le> 1
   \<and> length (records_on example_hist2 739039) \<le> 1
   \<and> length (records_on example_hist2 739040) \<le> 1"
proof -
  have r: "reachable example_store2"
    using reachable.call[OF reachable.call[OF reachable.fresh example_first_run] example_second_run] .
  have l: "load_historical_data example_store2 = Inr example_hist2"
    by code_simp
  show ?thesis
    using playlist_table_one_record_per_date[OF r l, of 739038]
      playlist_table_one_record_per_date[OF r l, of 739039]
      playlist_table_one_record_per_date[OF r l, of 739040] r l
    by simp
qed

section \<open>An error while the new record is built\<close>

text \<open>
  Claim C10. When building the new playlist record raises (lines 96 to 101), the call
  leaves the store as it was: the error comes before either save. On a store whose
  tables load and have no record for today the call raises that very error. A track
  table without a \<open>popularity\<close> column, as the table of a playlist without tracks is,
  makes it \<open>KeyError 'popularity'\<close>.
\<close>

theorem error_in_new_row_leaves_store:
  "new_row today info tracks_df = Inl e \<Longrightarrow>
     snd (update_daily_stats today info tracks_df s) = s
     \<and> (load_historical_data s = Inr hist \<longrightarrow> load_track_history s = Inr thist \<longrightarrow>
          records_on hist today = [] \<longrightarrow>
          update_daily_stats today info tracks_df s = (Inl e, s))
     \<and> (''popularity'' \<notin> set (columns tracks_df) \<longrightarrow> e = KeyError ''popularity'')"
proof (intro conjI impI)
  assume e: "new_row today info tracks_df = Inl e"
  show "snd (update_daily_stats today info tracks_df s) = s"
    using e by (auto simp: update_daily_stats_def split: sum.splits bool.splits)
  show "e = KeyError ''popularity''" if "''popularity'' \<notin> set (columns tracks_df)"
    using e that by (simp add: new_row_def getitem_def)
  show "update_daily_stats today info tracks_df s = (Inl e, s)"
    if l: "load_historical_data s = Inr hist" "load_track_history s = Inr thist"
      and n: "records_on hist today = []"
  proof -
    have "''date'' \<in> set (columns hist)" using l(1) by (rule loaded_has_date)
    moreover have "DateV today \<notin> set (map (\<lambda>r. cell_at hist r ''date'') (rows hist))"
      using n records_on_nonempty by blast
    ultimately show ?thesis
      using e l by (simp add: update_daily_stats_def getitem_def)
  qed
qed

theorem error_in_new_row_leaves_store_witness:
  "new_row 739038 (example_info 42) (DataFrame []) = Inl (KeyError ''popularity'')
   \<and> columns (DataFrame []) = []
   \<and> update_daily_stats 739038 (example_info 42) (DataFrame []) fresh_store
     = (Inl (KeyError ''popularity''), fresh_store)"
proof -
  have e: "new_row 739038 (example_info 42) (DataFrame []) = Inl (KeyError ''popularity'')"
    by code_simp
  have l: "load_historical_data fresh_store
             = Inr (empty_frame [''date'', ''saves'', ''total_tracks'', ''avg_popularity''])"
    "load_track_history fresh_store
             = Inr (empty_frame [''date'', ''track_id'', ''track_name'', ''artist'', ''popularity''])"
    by code_simp+
  have n: "records_on (empty_frame [''date'', ''saves'', ''total_tracks'', ''avg_popularity'']) 739038 = []"
    by code_simp
  have c: "columns (DataFrame []) = []"
    by code_simp
  show ?thesis
    using error_in_new_row_leaves_store[OF e, of fresh_store _ _] e l n c by simp
qed

section \<open>Date synchronisation of the two tables\<close>

lemma synchronized_iff:
  "synchronized hist thist \<longleftrightarrow>
     (\<forall>r \<in> set (rows hist). \<forall>D. cell_at hist r ''date'' = DateV D \<longrightarrow>
        cell_at hist r ''total_tracks'' = IntV (int (length (records_on thist D))))"
  by (auto simp: synchronized_def list_all_iff split: cell.splits)

lemma tracks_covered_iff:
  "tracks_covered hist thist \<longleftrightarrow>
     (\<forall>t \<in> set (rows thist). \<forall>D. cell_at thist t ''date'' = DateV D \<longrightarrow> records_on hist D \<noteq> [])"
  by (auto simp: tracks_covered_def list_all_iff split: cell.splits)

lemma records_on_today_tracks:
  assumes "select df [''track_id'', ''name'', ''artist'', ''popularity''] = Inr sub"
  shows "length (records_on (setitem sub ''date'' (DateV today)) D) = (if D = today then len df else 0)"
proof -
  let ?tt = "setitem sub ''date'' (DateV today)"
  have a: "\<forall>r \<in> set (rows ?tt). cell_at ?tt r ''date'' = DateV today"
    using today_tracks_shape(3)[OF assms] .
  have "records_on ?tt D = (if D = today then rows ?tt else [])"
    unfolding records_on_def using a by (auto simp: filter_empty_conv intro: filter_True)
  then show ?thesis using today_tracks_shape(2)[OF assms, of "DateV today"] by simp
qed

lemma sync_step:
  assumes l: "load_historical_data s = Inr hist" "load_track_history s = Inr thist"
    and n: "records_on hist today = []"
    and row: "new_row today info df = Inr row"
    and sub: "select df [''track_id'', ''name'', ''artist'', ''popularity''] = Inr sub"
    and sy: "synchronized hist thist" and old_today: "records_on thist today = []"
  shows "synchronized (concat2 hist row) (concat2 thist (setitem sub ''date'' (DateV today)))"
    and "tracks_covered hist thist \<Longrightarrow>
         tracks_covered (concat2 hist row) (concat2 thist (setitem sub ''date'' (DateV today)))"
    and "length (records_on (concat2 hist row) today) = 1"
    and "length (records_on (concat2 thist (setitem sub ''date'' (DateV today))) today) = len df"
proof -
  let ?tt = "setitem sub ''date'' (DateV today)"
  let ?h = "concat2 hist row" and ?t = "concat2 thist ?tt"
  from row obtain avg where r: 
    "row = \<lparr>columns = [''date'', ''saves'', ''total_tracks'', ''avg_popularity''],
            rows = [[DateV today, IntV (followers_total info), IntV (int (len df)), FltV avg]]\<rparr>"
    using new_row_Inr by blast
  have dr: "''date'' \<in> set (columns row)" and tr: "''total_tracks'' \<in> set (columns row)"
    by (simp_all add: r)
  have dt: "''date'' \<in> set (columns ?tt)"
    using today_tracks_shape(1)[OF sub, of "DateV today"] by simp
  have cnt_t: "\<And>D. length (records_on ?t D) = length (records_on thist D) + (if D = today then len df else 0)"
    using records_on_concat2[OF dt, of thist] records_on_today_tracks[OF sub, of today] by simp
  have cnt_h: "\<And>D. length (records_on ?h D) = length (records_on hist D) + (if D = today then 1 else 0)"
    using records_on_concat2[OF dr, of hist] by (simp add: r records_on_def cell_at_def)
  show "length (records_on ?h today) = 1" using cnt_h[of today] n by simp
  show "length (records_on ?t today) = len df" using cnt_t[of today] old_today by simp
  show "synchronized ?h ?t"
    unfolding synchronized_iff
  proof (intro ballI allI impI)
    fix r' D assume r': "r' \<in> set (rows ?h)" and d: "cell_at ?h r' ''date'' = DateV D"
    from r' consider
      (old) r0 where "r0 \<in> set (rows hist)" "r' = map (cell_at hist r0) (columns ?h)"
      | (new) r0 where "r0 \<in> set (rows row)" "r' = map (cell_at row r0) (columns ?h)"
      unfolding rows_concat2[of hist row] by auto
    then show "cell_at ?h r' ''total_tracks'' = IntV (int (length (records_on ?t D)))"
    proof cases
      case old
      have d0: "cell_at hist r0 ''date'' = DateV D"
        using d old(2) by (simp add: cell_at_concat2_left)
      then have "records_on hist D \<noteq> []"
        using old(1) by (auto simp: records_on_def filter_empty_conv)
      then have "D \<noteq> today" using n by auto
      moreover have "cell_at hist r0 ''total_tracks'' = IntV (int (length (records_on thist D)))"
        using sy old(1) d0 by (auto simp: synchronized_iff)
      ultimately show ?thesis
        using old(2) cnt_t[of D] by (simp add: cell_at_concat2_left)
    next
      case new
      then have r0: "r0 = [DateV today, IntV (followers_total info), IntV (int (len df)), FltV avg]"
        by (simp add: r)
      have "cell_at ?h r' ''date'' = cell_at row r0 ''date''"
        using new(2) dr by (simp add: cell_at_concat2_right)
      then have "D = today" using d by (simp add: r r0 cell_at_def)
      moreover have "cell_at ?h r' ''total_tracks'' = cell_at row r0 ''total_tracks''"
        using new(2) tr by (simp add: cell_at_concat2_right)
      ultimately show ?thesis
        using cnt_t[of today] old_today by (simp add: r r0 cell_at_def)
    qed
  qed
  show "tracks_covered ?h ?t" if co: "tracks_covered hist thist"
    unfolding tracks_covered_iff
  proof (intro ballI allI impI)
    fix t' D assume t': "t' \<in> set (rows ?t)" and d: "cell_at ?t t' ''date'' = DateV D"
    from t' consider
      (old) t0 where "t0 \<in> set (rows thist)" "t' = map (cell_at thist t0) (columns ?t)"
      | (new) t0 where "t0 \<in> set (rows ?tt)" "t' = map (cell_at ?tt t0) (columns ?t)"
      unfolding rows_concat2[of thist ?tt] by auto
    then have "length (records_on ?h D) \<noteq> 0"
    proof cases
      case old
      have "cell_at thist t0 ''date'' = DateV D"
        using d old(2) by (simp add: cell_at_concat2_left)
      then have "records_on hist D \<noteq> []" using co old(1) by (auto simp: tracks_covered_iff)
      then show ?thesis using cnt_h[of D] by simp
    next
      case new
      have "cell_at ?t t' ''date'' = cell_at ?tt t0 ''date''"
        using new(2) dt by (simp add: cell_at_concat2_right)
      then have "D = today"
        using d today_tracks_shape(3)[OF sub, of "DateV today"] new(1) by auto
      then show ?thesis using cnt_h[of D] by simp
    qed
    then show "records_on ?h D \<noteq> []" by simp
  qed
qed


lemma synchronized_round_trip:
  assumes "synchronized h t"
  shows "synchronized (round_trip h) (round_trip t)"
  unfolding synchronized_iff
proof (intro ballI allI impI)
  fix r' D
  assume "r' \<in> set (rows (round_trip h))" and d: "cell_at (round_trip h) r' ''date'' = DateV D"
  then obtain r where r: "r \<in> set (rows h)" "r' = map read_back r"
    by (auto simp: rows_round_trip)
  have "cell_at h r ''date'' = DateV D"
    using d r(2) by (simp add: cell_at_round_trip read_back_date)
  then have "cell_at h r ''total_tracks'' = IntV (int (length (records_on t D)))"
    using assms r(1) by (auto simp: synchronized_iff)
  then show "cell_at (round_trip h) r' ''total_tracks''
             = IntV (int (length (records_on (round_trip t) D)))"
    using r(2) by (simp add: cell_at_round_trip records_on_round_trip)
qed

text \<open>
  Claim C3, amended. Let the two loaded tables be date-synchronised, and let the track
  table hold no record dated today unless the playlist table has a record for today.
  Then after a call of \<open>update_daily_stats\<close> that returns, the returned tables are
  date-synchronised, and so are the persisted tables as the next run loads them; when
  today was not recorded before, the playlist table has gained one record for today
  and the track table holds \<open>len tracks_df\<close> records for today. If moreover every
  dated track record had a playlist record of its date, that holds afterwards too, so
  the two properties together are kept by every such call.
\<close>

theorem update_keeps_tables_synchronized:
  assumes "update_daily_stats today info tracks_df s = (Inr (h', t'), s')"
    and "load_historical_data s = Inr hist" and "load_track_history s = Inr thist"
    and "synchronized hist thist"
    and "records_on hist today = [] \<longrightarrow> records_on thist today = []"
  shows "synchronized h' t'
         \<and> (\<exists>h2 t2. load_historical_data s' = Inr h2 \<and> load_track_history s' = Inr t2
                \<and> synchronized h2 t2)
         \<and> (records_on hist today = [] \<longrightarrow>
              length (records_on h' today) = 1 \<and> length (records_on t' today) = len tracks_df)
         \<and> (tracks_covered hist thist \<longrightarrow> tracks_covered h' t')"
proof -
  from update_daily_stats_Inr[OF assms(1)] assms(2,3)
  have c: "(\<not> df_empty hist \<and> DateV today \<in> set (map (\<lambda>r. cell_at hist r ''date'') (rows hist))
               \<and> h' = hist \<and> t' = thist \<and> s' = s)
          \<or> ((df_empty hist \<or> DateV today \<notin> set (map (\<lambda>r. cell_at hist r ''date'') (rows hist)))
               \<and> (\<exists>row sub. new_row today info tracks_df = Inr row
                     \<and> select tracks_df [''track_id'', ''name'', ''artist'', ''popularity''] = Inr sub
                     \<and> h' = concat2 hist row
                     \<and> t' = concat2 thist (setitem sub ''date'' (DateV today))
                     \<and> s' = \<lparr>playlist_history_csv = Some h', track_popularity_history_csv = Some t'\<rparr>))"
    by auto
  then show ?thesis
  proof
    assume a: "\<not> df_empty hist \<and> DateV today \<in> set (map (\<lambda>r. cell_at hist r ''date'') (rows hist))
               \<and> h' = hist \<and> t' = thist \<and> s' = s"
    then have "records_on hist today \<noteq> []" using records_on_nonempty by blast
    then show ?thesis using a assms(2-4) by auto
  next
    assume b: "(df_empty hist \<or> DateV today \<notin> set (map (\<lambda>r. cell_at hist r ''date'') (rows hist)))
               \<and> (\<exists>row sub. new_row today info tracks_df = Inr row
                     \<and> select tracks_df [''track_id'', ''name'', ''artist'', ''popularity''] = Inr sub
                     \<and> h' = concat2 hist row
                     \<and> t' = concat2 thist (setitem sub ''date'' (DateV today))
                     \<and> s' = \<lparr>playlist_history_csv = Some h', track_popularity_history_csv = Some t'\<rparr>)"
    then obtain row sub where a: "new_row today info tracks_df = Inr row"
      "select tracks_df [''track_id'', ''name'', ''artist'', ''popularity''] = Inr sub"
      "h' = concat2 hist row" "t' = concat2 thist (setitem sub ''date'' (DateV today))"
      "s' = \<lparr>playlist_history_csv = Some h', track_popularity_history_csv = Some t'\<rparr>"
      by blast
    have n: "records_on hist today = []" using b records_on_not_recorded by blast
    then have o: "records_on thist today = []" using assms(5) by simp
    note st = sync_step[OF assms(2,3) n a(1,2) assms(4) o]
    have sy: "synchronized h' t'" using st(1) a(3,4) by simp
    have ld: "load_historical_data s' = Inr (round_trip h')"
      "load_track_history s' = Inr (round_trip t')"
      using appended_store_loads(1,2)[OF a(1,2)] a(3,4,5) by simp_all
    have "\<exists>h2 t2. load_historical_data s' = Inr h2 \<and> load_track_history s' = Inr t2
                \<and> synchronized h2 t2"
      using ld synchronized_round_trip[OF sy] by blast
    then show ?thesis
      using sy st a(3,4) by simp
  qed
qed

theorem update_keeps_tables_synchronized_witness:
  "update_daily_stats 739039 (example_info 12) example_tracks_df example_store
     = (Inr (example_hist2, example_track_hist2), example_store2)
   \<and> synchronized example_hist example_track_hist
   \<and> tracks_covered example_hist example_track_hist
   \<and> records_on example_hist 739039 = []
   \<and> records_on example_track_hist 739039 = []
   \<and> synchronized example_hist2 example_track_hist2
   \<and> tracks_covered example_hist2 example_track_hist2
   \<and> length (records_on example_hist2 739039) = 1
   \<and> length (records_on example_track_hist2 739039) = len example_tracks_df"
proof -
  have p: "synchronized example_hist example_track_hist"
    by code_simp
  have c: "tracks_covered example_hist example_track_hist"
    by code_simp
  have n: "records_on example_hist 739039 = []" "records_on example_track_hist 739039 = []"
    by code_simp+
  show ?thesis
    using update_keeps_tables_synchronized[OF example_second_run example_store_loads p]
      example_second_run p c n
    by simp
qed

text \<open>
  Date synchronisation alone is not kept. The playlist file is missing and the track
  file holds one record dated 739038: the tables are synchronised, no playlist record
  being there. The run of that day appends a playlist record with \<open>total_tracks = 2\<close>
  and two track records, so three track records carry the date.
\<close>

theorem orphan_track_records_counterexample:
  "load_historical_data orphan_store
     = Inr (empty_frame [''date'', ''saves'', ''total_tracks'', ''avg_popularity''])
   \<and> load_track_history orphan_store = Inr orphan_tracks
   \<and> synchronized (empty_frame [''date'', ''saves'', ''total_tracks'', ''avg_popularity'']) orphan_tracks
   \<and> fst (update_daily_stats 739038 (example_info 10) example_tracks_df orphan_store)
     = Inr (example_hist, orphan_tracks_after)
   \<and> \<not> synchronized example_hist orphan_tracks_after
   \<and> cell_at example_hist (hd (rows example_hist)) ''total_tracks'' = IntV 2
   \<and> length (records_on orphan_tracks_after 739038) = 3"
  by code_simp

section \<open>A playlist without tracks\<close>

lemma empty_playlist_fetched:
  "get_playlist_data empty_playlist_sp pid = Some (Inr (example_info 42, DataFrame []))"
  by (simp add: get_playlist_data_def empty_playlist_sp_def fetch_pages.simps truthy_def)

text \<open>
  Claim C4. The table that \<open>get_playlist_data\<close> builds for a playlist without tracks
  has no columns, so \<open>update_daily_stats\<close> raises \<open>KeyError 'popularity'\<close> at line
  100 and records nothing; nothing catches the error in \<open>main\<close>.
\<close>

theorem empty_playlist_raises:
  "get_playlist_data empty_playlist_sp (get_playlist_id playlist_url)
     = Some (Inr (example_info 42, DataFrame []))
   \<and> len (DataFrame []) = 0
   \<and> update_daily_stats 739038 (example_info 42) (DataFrame []) fresh_store
     = (Inl (KeyError ''popularity''), fresh_store)
   \<and> main (Inr empty_playlist_sp) 739038 fresh_store
     = Some (Raised (KeyError ''popularity''), fresh_store)"
proof -
  have u: "update_daily_stats 739038 (example_info 42) (DataFrame []) fresh_store
     = (Inl (KeyError ''popularity''), fresh_store)"
    by code_simp
  have l: "len (DataFrame []) = 0"
    by code_simp
  show ?thesis
    using u l by (simp add: main_def empty_playlist_fetched)
qed

section \<open>Columns of the track table\<close>

text \<open>
  Claim C5. The table of a first run declares the columns \<open>date\<close>, \<open>track_id\<close>,
  \<open>track_name\<close>, \<open>artist\<close> and \<open>popularity\<close>, but the rows that
  \<open>update_daily_stats\<close> appends carry the track's name under \<open>name\<close>: the
  persisted table has a sixth column \<open>name\<close>, and \<open>track_name\<close> is NaN in every
  appended row.
\<close>

theorem track_table_gains_name_column:
  "load_track_history fresh_store
     = Inr (empty_frame [''date'', ''track_id'', ''track_name'', ''artist'', ''popularity''])
   \<and> snd (update_daily_stats 739038 (example_info 10) example_tracks_df fresh_store)
     = example_store
   \<and> load_track_history example_store = Inr example_track_hist
   \<and> columns example_track_hist
     = [''date'', ''track_id'', ''track_name'', ''artist'', ''popularity'', ''name'']
   \<and> getitem example_track_hist ''track_name'' = Inr [FltV NaN, FltV NaN]
   \<and> getitem example_track_hist ''name'' = Inr [StrV ''song t1'', StrV ''song t2'']"
  by code_simp

section \<open>Pagination\<close>

lemma fetch_pages_serves:
  "serves nxt p qs \<Longrightarrow> fetch_pages nxt p tracks = Some (Inr (tracks @ concat (map items qs)))"
proof (induction qs arbitrary: p tracks)
  case Nil
  then show ?case by (subst fetch_pages.simps) simp
next
  case (Cons q qs)
  then show ?case by (subst fetch_pages.simps) simp
qed

lemma fetch_pages_fails:
  "fails_after nxt p qs e \<Longrightarrow> fetch_pages nxt p tracks = Some (Inl e)"
proof (induction qs arbitrary: p tracks)
  case Nil
  then show ?case by (subst fetch_pages.simps) simp
next
  case (Cons q qs)
  then show ?case by (subst fetch_pages.simps) simp
qed

text \<open>
  Claim C7. When the provider returns the tracks across the pages \<open>p # qs\<close>, the loop
  ends and the assembled sequence is the concatenation of the pages' items in page
  order, so its length is the sum of the pages' item counts; \<open>get_playlist_data\<close>
  returns the playlist with the table of exactly these items.
\<close>

theorem fetcher_concatenates_pages:
  assumes "sp_playlist sp pid = Inr pl" and "sp_playlist_tracks sp pid = Inr p"
    and "serves (sp_next sp) p qs"
  shows "fetch_pages (sp_next sp) p (items p) = Some (Inr (concat (map items (p # qs))))
         \<and> length (concat (map items (p # qs))) = sum_list (map (\<lambda>q. length (items q)) (p # qs))
         \<and> get_playlist_data sp pid
           = Some (Inr (pl, DataFrame (extract_track_information (concat (map items (p # qs))) [])))"
proof -
  have f: "fetch_pages (sp_next sp) p (items p) = Some (Inr (concat (map items (p # qs))))"
    using fetch_pages_serves[OF assms(3), of "items p"] by simp
  have l: "length (concat (map items (p # qs))) = sum_list (map (\<lambda>q. length (items q)) (p # qs))"
    by (simp add: length_concat o_def)
  have g: "get_playlist_data sp pid
           = Some (Inr (pl, DataFrame (extract_track_information (concat (map items (p # qs))) [])))"
    using assms(1,2) f by (simp add: get_playlist_data_def)
  show ?thesis using f l g by blast
qed

theorem fetcher_concatenates_pages_witness:
  "sp_playlist example_sp ''4fdUWePS7vpy3r1GiZtv1L'' = Inr (example_info 10)
   \<and> sp_playlist_tracks example_sp ''4fdUWePS7vpy3r1GiZtv1L'' = Inr page1
   \<and> serves (sp_next example_sp) page1 [page2, page3]
   \<and> fetch_pages (sp_next example_sp) page1 (items page1)
     = Some (Inr (items page1 @ items page2 @ items page3))
   \<and> length (items page1 @ items page2 @ items page3) = 4"
proof -
  have a: "sp_playlist example_sp ''4fdUWePS7vpy3r1GiZtv1L'' = Inr (example_info 10)"
    "sp_playlist_tracks example_sp ''4fdUWePS7vpy3r1GiZtv1L'' = Inr page1"
    by (simp_all add: example_sp_def)
  have s: "serves (sp_next example_sp) page1 [page2, page3]"
    by (simp add: example_sp_def page1_def page2_def page3_def truthy_def)
  have n: "length (items page1 @ items page2 @ items page3) = 4"
    by (simp add: page1_def page2_def page3_def)
  show ?thesis
    using fetcher_concatenates_pages[OF a s] a s n by simp
qed

section \<open>Normalising the items\<close>

lemma extract_track_information_append:
  "extract_track_information its track_data = track_data @ map track_dict (present its)"
  by (induction its arbitrary: track_data) (auto simp: present_def split: option.splits)


lemma first_appearance_repeated:
  assumes "distinct ks" "xs \<noteq> []"
  shows "rev (remdups (rev (concat (map (\<lambda>_. ks) xs)))) = ks"
  using assms(2)
proof (induction xs)
  case Nil
  then show ?case by simp
next
  case (Cons x xs)
  have "set (rev (concat (map (\<lambda>_. ks) xs))) \<subseteq> set (rev ks)" by auto
  then have "remdups (rev (concat (map (\<lambda>_. ks) xs)) @ rev ks) = remdups (rev ks)"
    by (auto simp: remdups_append filter_empty_conv)
  then show ?case using assms(1) by (simp add: distinct_remdups_id)
qed

lemma keys_track_dict: "map fst (track_dict t) = track_columns"
  by (simp add: track_dict_def track_columns_def)

lemma distinct_track_columns: "distinct track_columns"
  by (simp add: track_columns_def)

lemma DataFrame_track_dicts:
  assumes "ts \<noteq> []"
  shows "DataFrame (map track_dict ts)
         = \<lparr>columns = track_columns, rows = map (\<lambda>t. map snd (track_dict t)) ts\<rparr>"
proof -
  have "concat (map (map fst) (map track_dict ts)) = concat (map (\<lambda>_. track_columns) ts)"
    by (simp add: o_def keys_track_dict)
  then have c: "rev (remdups (rev (concat (map (map fst) (map track_dict ts))))) = track_columns"
    using first_appearance_repeated[OF distinct_track_columns assms] by simp
  have "map (\<lambda>c. case map_of (track_dict t) c of Some v \<Rightarrow> v | None \<Rightarrow> FltV NaN) track_columns
        = map snd (track_dict t)" for t
    by (simp add: track_dict_def track_columns_def)
  then show ?thesis
    unfolding DataFrame_def Let_def c by (simp add: o_def)
qed

lemma artist_column:
  assumes "ts \<noteq> []"
  shows "getitem (DataFrame (map track_dict ts)) ''artist'' = Inr (map artist_string ts)"
proof -
  have "cell_at \<lparr>columns = track_columns, rows = R\<rparr> (map snd (track_dict t)) ''artist''
        = artist_string t" for R t
    by (simp add: cell_at_def track_columns_def track_dict_def artist_string_def)
  then show ?thesis
    unfolding DataFrame_track_dicts[OF assms] getitem_def
    by (simp add: track_columns_def o_def)
qed

text \<open>
  Claim C8. The rows built from a sequence of items are those of the items that carry
  a track, one row for each, in the items' order: an item without a track gives no row
  and no error, and removing it changes nothing else. The \<open>artist\<close> cell of a row is
  the track's artist names joined by \<open>', '\<close> in the given order.
\<close>

theorem normalizer_keeps_present_tracks:
  "extract_track_information its [] = map track_dict (present its)
   \<and> len (DataFrame (extract_track_information its [])) = length (filter (\<lambda>i. track i \<noteq> None) its)
   \<and> (present its \<noteq> [] \<longrightarrow>
        getitem (DataFrame (extract_track_information its [])) ''artist''
          = Inr (map artist_string (present its)))
   \<and> extract_track_information (xs @ \<lparr>track = None\<rparr> # ys) []
       = extract_track_information (xs @ ys) []"
proof -
  have e: "\<And>zs. extract_track_information zs [] = map track_dict (present zs)"
    using extract_track_information_append[of _ "[]"] by simp
  have l: "len (DataFrame (map track_dict (present its))) = length (present its)"
    by (simp add: DataFrame_def Let_def len_def)
  have p: "length (present its) = length (filter (\<lambda>i. track i \<noteq> None) its)"
    by (simp add: present_def)
  have d: "present (xs @ \<lparr>track = None\<rparr> # ys) = present (xs @ ys)"
    by (simp add: present_def)
  show ?thesis
    using l p d artist_column[of "present its"] by (simp add: e)
qed

theorem normalizer_keeps_present_tracks_witness:
  "present example_items \<noteq> []
   \<and> extract_track_information example_items []
       = [track_dict (example_track ''t1'' [''Master KG'', ''Nomcebo''] 70),
          track_dict (example_track ''t2'' [''Black Coffee''] 61)]
   \<and> len example_tracks_df = 2
   \<and> getitem example_tracks_df ''artist'' = Inr [StrV ''Master KG, Nomcebo'', StrV ''Black Coffee'']"
proof -
  have p: "present example_items = [example_track ''t1'' [''Master KG'', ''Nomcebo''] 70,
          example_track ''t2'' [''Black Coffee''] 61]"
    by code_simp
  have a: "map artist_string (present example_items) = [StrV ''Master KG, Nomcebo'', StrV ''Black Coffee'']"
    by code_simp
  have f: "length (filter (\<lambda>i. track i \<noteq> None) example_items) = 2"
    by code_simp
  note t = normalizer_keeps_present_tracks[of example_items "[]" "[]"]
  have 1: "extract_track_information example_items []
       = [track_dict (example_track ''t1'' [''Master KG'', ''Nomcebo''] 70),
          track_dict (example_track ''t2'' [''Black Coffee''] 61)]"
    using t[THEN conjunct1] p by simp
  have 2: "len example_tracks_df = 2"
    using t[THEN conjunct2, THEN conjunct1] f by (simp add: example_tracks_df_def)
  have 3: "getitem example_tracks_df ''artist'' = Inr [StrV ''Master KG, Nomcebo'', StrV ''Black Coffee'']"
    using t[THEN conjunct2, THEN conjunct2, THEN conjunct1] p a
    by (simp add: example_tracks_df_def)
  show ?thesis
    using 1 2 3 p by simp
qed


section \<open>A failing request\<close>

text \<open>
  Claim C9. When the request for the playlist, for the first page or for a later page
  fails, \<open>get_playlist_data\<close> ends with that failure and returns no table; \<open>main\<close>
  then shows the message and stops, before \<open>update_daily_stats\<close> runs, so the store is
  as it was.
\<close>

theorem fetch_failure_stops_the_run:
  "(sp_playlist sp pid = Inl e \<longrightarrow> get_playlist_data sp pid = Some (Inl e))
   \<and> (sp_playlist sp pid = Inr pl \<longrightarrow> sp_playlist_tracks sp pid = Inl e \<longrightarrow>
        get_playlist_data sp pid = Some (Inl e))
   \<and> (sp_playlist sp pid = Inr pl \<longrightarrow> sp_playlist_tracks sp pid = Inr p \<longrightarrow>
        fails_after (sp_next sp) p qs e \<longrightarrow> get_playlist_data sp pid = Some (Inl e))
   \<and> (get_playlist_data sp (get_playlist_id playlist_url) = Some (Inl e) \<longrightarrow>
        main (Inr sp) today s = Some (Stopped (''Failed to fetch playlist data: '' @ str e), s))"
proof (intro conjI impI)
  assume "sp_playlist sp pid = Inr pl" "sp_playlist_tracks sp pid = Inr p"
    "fails_after (sp_next sp) p qs e"
  then show "get_playlist_data sp pid = Some (Inl e)"
    using fetch_pages_fails[of "sp_next sp" p qs e "items p"]
    by (simp add: get_playlist_data_def)
qed (simp_all add: get_playlist_data_def main_def)

theorem fetch_failure_stops_the_run_witness:
  "get_playlist_data (failing_sp 0) (get_playlist_id playlist_url) = Some (Inl (ProviderError ''timeout''))
   \<and> get_playlist_data (failing_sp 1) (get_playlist_id playlist_url) = Some (Inl (ProviderError ''timeout''))
   \<and> fails_after (sp_next (failing_sp 2)) page1 [page2] (ProviderError ''timeout'')
   \<and> get_playlist_data (failing_sp 2) (get_playlist_id playlist_url) = Some (Inl (ProviderError ''timeout''))
   \<and> main (Inr (failing_sp 2)) 739038 example_store
     = Some (Stopped ''Failed to fetch playlist data: timeout'', example_store)"
proof -
  let ?pid = "get_playlist_id playlist_url" and ?e = "ProviderError ''timeout''"
  have 0: "sp_playlist (failing_sp 0) ?pid = Inl ?e"
    by (simp add: failing_sp_def)
  have 1: "sp_playlist (failing_sp 1) ?pid = Inr (example_info 10)"
    "sp_playlist_tracks (failing_sp 1) ?pid = Inl ?e"
    by (simp_all add: failing_sp_def)
  have 2: "sp_playlist (failing_sp 2) ?pid = Inr (example_info 10)"
    "sp_playlist_tracks (failing_sp 2) ?pid = Inr page1"
    "fails_after (sp_next (failing_sp 2)) page1 [page2] ?e"
    by (simp_all add: failing_sp_def page1_def page2_def truthy_def)
  have g0: "get_playlist_data (failing_sp 0) ?pid = Some (Inl ?e)"
    using fetch_failure_stops_the_run[of "failing_sp 0" ?pid ?e] 0 by simp
  have g1: "get_playlist_data (failing_sp 1) ?pid = Some (Inl ?e)"
    using fetch_failure_stops_the_run[of "failing_sp 1" ?pid ?e "example_info 10"] 1 by simp
  have g2: "get_playlist_data (failing_sp 2) ?pid = Some (Inl ?e)"
    using fetch_failure_stops_the_run[of "failing_sp 2" ?pid ?e "example_info 10" page1 "[page2]"] 2
    by simp
  have m: "main (Inr (failing_sp 2)) 739038 example_store
     = Some (Stopped (''Failed to fetch playlist data: '' @ str ?e), example_store)"
    using fetch_failure_stops_the_run[of "failing_sp 2" _ ?e _ _ _ 739038 example_store] g2
    by simp
  show ?thesis
    using g0 g1 g2 2(3) m by simp
qed


section \<open>The rounding to binary64\<close>

text \<open>
  \<open>ilog2\<close> is the binary exponent. In the normal range below the largest binade,
  \<open>fl x\<close> is a multiple of the unit in the last place with a significand of 53 bits,
  at most half a unit away from \<open>x\<close>, so the relative error is at most \<open>2 ^ -53\<close>.
\<close>

lemma quotient_of_pos:
  assumes "0 < x" "quotient_of x = (a, b)"
  shows "0 < a" "0 < b" "x = of_int a / of_int b"
proof -
  show b: "0 < b" using assms(2) quotient_of_denom_pos by blast
  show x: "x = of_int a / of_int b" using assms(2) quotient_of_div by blast
  show "0 < a" using assms(1) b x by (simp add: zero_less_divide_iff)
qed

lemma ilog2_bounds:
  assumes "0 < x"
  shows "power_int 2 (ilog2 x) \<le> x" and "x < power_int 2 (ilog2 x + 1)"
proof -
  obtain a b where q: "quotient_of x = (a, b)" by (cases "quotient_of x")
  note p = quotient_of_pos[OF assms q]
  define la lb where "la = bitlen a" and "lb = bitlen b"
  have la: "1 \<le> la" "2 ^ nat (la - 1) \<le> a" "a < 2 ^ nat la"
    using bitlen_bounds[OF p(1)] p(1) by (auto simp: la_def bitlen_alt_def)
  have lb: "1 \<le> lb" "2 ^ nat (lb - 1) \<le> b" "b < 2 ^ nat lb"
    using bitlen_bounds[OF p(2)] p(2) by (auto simp: lb_def bitlen_alt_def)
  have ra: "power_int (2::rat) (la - 1) \<le> of_int a" "rat_of_int a < power_int 2 la"
  proof -
    have "rat_of_int (2 ^ nat (la - 1)) \<le> of_int a" using la(2) by (simp only: of_int_le_iff)
    then show "power_int (2::rat) (la - 1) \<le> of_int a" using la(1) by (simp add: power_int_def)
    have "rat_of_int a < of_int (2 ^ nat la)" using la(3) by (simp only: of_int_less_iff)
    then show "rat_of_int a < power_int 2 la" using la(1) by (simp add: power_int_def)
  qed
  have rb: "power_int (2::rat) (lb - 1) \<le> of_int b" "rat_of_int b < power_int 2 lb"
  proof -
    have "rat_of_int (2 ^ nat (lb - 1)) \<le> of_int b" using lb(2) by (simp only: of_int_le_iff)
    then show "power_int (2::rat) (lb - 1) \<le> of_int b" using lb(1) by (simp add: power_int_def)
    have "rat_of_int b < of_int (2 ^ nat lb)" using lb(3) by (simp only: of_int_less_iff)
    then show "rat_of_int b < power_int 2 lb" using lb(1) by (simp add: power_int_def)
  qed
  have bpos: "0 < rat_of_int b" using p(2) by simp
  have lo: "power_int 2 (la - lb - 1) \<le> x"
  proof -
    have "power_int (2::rat) (la - lb - 1) * of_int b \<le> power_int 2 (la - lb - 1) * power_int 2 lb"
      using rb(2) by (intro mult_left_mono) auto
    also have "\<dots> = power_int 2 (la - 1)"
      by (simp flip: power_int_add)
    also have "\<dots> \<le> of_int a" by (rule ra(1))
    finally show ?thesis using bpos by (simp add: p(3) pos_le_divide_eq)
  qed
  have hi: "x < power_int 2 (la - lb + 1)"
  proof -
    have "rat_of_int a < power_int 2 la" by (rule ra(2))
    also have "\<dots> = power_int 2 (la - lb + 1) * power_int 2 (lb - 1)"
      by (simp flip: power_int_add)
    also have "\<dots> \<le> power_int 2 (la - lb + 1) * of_int b"
      using rb(1) by (intro mult_left_mono) auto
    finally show ?thesis using bpos by (simp add: p(3) pos_divide_less_eq)
  qed
  have e: "ilog2 x = (if power_int 2 (la - lb) \<le> x then la - lb else la - lb - 1)"
    by (simp add: ilog2_def q la_def lb_def Let_def)
  show "power_int 2 (ilog2 x) \<le> x" using lo by (simp add: e)
  show "x < power_int 2 (ilog2 x + 1)" using hi by (auto simp: e not_le)
qed


lemma round_half_even_near: "\<bar>of_int (round_half_even q) - q\<bar> \<le> 1 / 2"
proof -
  define d where "d = q - of_int \<lfloor>q\<rfloor>"
  have d: "0 \<le> d" "d < 1" unfolding d_def by linarith+
  have q: "q = of_int \<lfloor>q\<rfloor> + d" by (simp add: d_def)
  consider "d < 1 / 2" | "1 / 2 < d" | "d = 1 / 2" by linarith
  then show ?thesis
  proof cases
    case 1
    then have "round_half_even q = \<lfloor>q\<rfloor>" by (simp add: round_half_even_def Let_def d_def)
    then show ?thesis using d 1 by (simp add: d_def)
  next
    case 2
    then have "round_half_even q = \<lfloor>q\<rfloor> + 1" by (simp add: round_half_even_def Let_def d_def)
    then show ?thesis using d 2 by (simp add: d_def)
  next
    case 3
    then have "round_half_even q = \<lfloor>q\<rfloor> \<or> round_half_even q = \<lfloor>q\<rfloor> + 1"
      by (simp add: round_half_even_def Let_def d_def)
    then show ?thesis using 3 by (auto simp: d_def)
  qed
qed

lemma fl_half_ulp:
  assumes "x \<noteq> 0" and "- 1022 \<le> ilog2 \<bar>x\<bar>" and "ilog2 \<bar>x\<bar> < 1023"
  shows "\<exists>y. fl x = Finite y \<and> \<bar>y - x\<bar> \<le> power_int 2 (ilog2 \<bar>x\<bar> - 53)
             \<and> \<bar>y - x\<bar> \<le> \<bar>x\<bar> / 2 ^ 53"
proof -
  define e where "e = ilog2 \<bar>x\<bar>"
  define u :: rat where "u = power_int 2 (e - 52)"
  define n where "n = round_half_even (\<bar>x\<bar> / u)"
  have u: "0 < u" by (simp add: u_def)
  have m: "max e (- 1022) = e" using assms(2) by (simp add: e_def)
  have f: "fl x = Finite (sgn x * (of_int n * u))"
    using assms(1,3) unfolding fl_def Let_def e_def[symmetric] m u_def[symmetric] n_def[symmetric]
    by (simp add: e_def)
  have "\<bar>of_int n - \<bar>x\<bar> / u\<bar> \<le> 1 / 2" unfolding n_def by (rule round_half_even_near)
  then have "\<bar>of_int n - \<bar>x\<bar> / u\<bar> * \<bar>u\<bar> \<le> 1 / 2 * u"
    using u mult_right_mono[of "\<bar>of_int n - \<bar>x\<bar> / u\<bar>" "1 / 2" u] by simp
  moreover have "(of_int n - \<bar>x\<bar> / u) * u = of_int n * u - \<bar>x\<bar>"
    using u by (simp add: left_diff_distrib)
  ultimately have a: "\<bar>of_int n * u - \<bar>x\<bar>\<bar> \<le> u / 2"
    by (simp flip: abs_mult)
  have "sgn x * (of_int n * u) - x = sgn x * (of_int n * u - \<bar>x\<bar>)"
    by (simp add: right_diff_distrib sgn_mult_abs flip: abs_sgn)
  then have b: "\<bar>sgn x * (of_int n * u) - x\<bar> = \<bar>of_int n * u - \<bar>x\<bar>\<bar>"
    using assms(1) by (simp add: abs_mult abs_sgn_eq)
  have h: "u / 2 = power_int 2 (e - 53)"
  proof -
    have "power_int (2::rat) (e - 52) = power_int 2 (e - 53) * power_int 2 1"
      using power_int_add[of "2::rat" "e - 53" 1] by simp
    then show ?thesis by (simp add: u_def)
  qed
  have "power_int 2 e \<le> \<bar>x\<bar>" using ilog2_bounds(1)[of "\<bar>x\<bar>"] assms(1) by (simp add: e_def)
  moreover have "power_int (2::rat) e = power_int 2 (e - 53) * 2 ^ 53"
  proof -
    have "power_int (2::rat) e = power_int 2 (e - 53) * power_int 2 53"
      using power_int_add[of "2::rat" "e - 53" 53] by simp
    then show ?thesis by simp
  qed
  ultimately have c: "power_int 2 (e - 53) \<le> \<bar>x\<bar> / 2 ^ 53"
    by (simp add: pos_le_divide_eq)
  show ?thesis
    using f a b h c by (auto simp: e_def)
qed


lemma fl_significand:
  assumes "x \<noteq> 0" and "- 1022 \<le> ilog2 \<bar>x\<bar>" and "ilog2 \<bar>x\<bar> < 1023"
  shows "\<exists>n. fl x = Finite (sgn x * (of_int n * power_int 2 (ilog2 \<bar>x\<bar> - 52)))
             \<and> 2 ^ 52 \<le> n \<and> n \<le> 2 ^ 53"
proof -
  define e where "e = ilog2 \<bar>x\<bar>"
  define u :: rat where "u = power_int 2 (e - 52)"
  define n where "n = round_half_even (\<bar>x\<bar> / u)"
  have u: "0 < u" by (simp add: u_def)
  have m: "max e (- 1022) = e" using assms(2) by (simp add: e_def)
  have f: "fl x = Finite (sgn x * (of_int n * u))"
    using assms(1,3) unfolding fl_def Let_def e_def[symmetric] m u_def[symmetric] n_def[symmetric]
    by (simp add: e_def)
  have x: "power_int 2 e \<le> \<bar>x\<bar>" "\<bar>x\<bar> < power_int 2 (e + 1)"
    using ilog2_bounds[of "\<bar>x\<bar>"] assms(1) by (simp_all add: e_def)
  have "power_int (2::rat) e = 2 ^ 52 * u"
    using power_int_add[of "2::rat" 52 "e - 52"] by (simp add: u_def)
  then have lo: "2 ^ 52 \<le> \<bar>x\<bar> / u" using x(1) u by (simp add: pos_le_divide_eq)
  have "power_int (2::rat) (e + 1) = 2 ^ 53 * u"
    using power_int_add[of "2::rat" 53 "e - 52"] by (simp add: u_def add.commute)
  then have hi: "\<bar>x\<bar> / u < 2 ^ 53" using x(2) u by (simp add: pos_divide_less_eq)
  have r: "\<bar>of_int n - \<bar>x\<bar> / u\<bar> \<le> 1 / 2" unfolding n_def by (rule round_half_even_near)
  have n1: "2 ^ 52 - 1 < n"
  proof -
    have "2 ^ 52 - 1 < rat_of_int n" using lo r by linarith
    then have "rat_of_int (2 ^ 52 - 1) < rat_of_int n" by simp
    then show ?thesis by (simp only: of_int_less_iff)
  qed
  have n2: "n < 2 ^ 53 + 1"
  proof -
    have "rat_of_int n < 2 ^ 53 + 1" using hi r by linarith
    then have "rat_of_int n < rat_of_int (2 ^ 53 + 1)" by simp
    then show ?thesis by (simp only: of_int_less_iff)
  qed
  show ?thesis using f n1 n2 by (auto simp: u_def e_def)
qed

section \<open>Growth tracking: the values\<close>

subsection \<open>Integers below \<open>2 ^ 53\<close> are binary64 numbers\<close>

lemma bitlen_one: "bitlen 1 = 1"
  by (subst compute_bitlen) simp

lemma ilog2_of_int_le:
  assumes "0 < n" "n < 2 ^ 53"
  shows "ilog2 (of_int n) \<le> 52"
proof -
  have "bitlen n \<le> 53" using assms by (simp add: bitlen_le_iff_power)
  then show ?thesis
    by (auto simp: ilog2_def Let_def bitlen_one)
qed

lemma round_half_even_of_int: "round_half_even (of_int k) = k"
  by (simp add: round_half_even_def)

lemma fl_of_nat_int:
  assumes "0 < n" "n < 2 ^ 53"
  shows "fl (of_int n) = Finite (of_int n)"
proof -
  define e where "e = max (ilog2 \<bar>of_int n\<bar>) (- 1022)"
  have n: "\<bar>rat_of_int n\<bar> = of_int n" using assms by simp
  have e: "e \<le> 52" using ilog2_of_int_le[OF assms] by (simp add: e_def n)
  then obtain k where k: "52 - e = int k" using nonneg_int_cases[of "52 - e"] by auto
  have p: "power_int (2::rat) (e - 52) = 1 / 2 ^ k"
  proof -
    have "e - 52 = - int k" using k by simp
    then show ?thesis by (simp add: power_int_minus divide_inverse)
  qed
  have q: "\<bar>rat_of_int n\<bar> / power_int 2 (e - 52) = of_int (n * 2 ^ k)"
    by (simp add: p n)
  have r: "round_half_even (\<bar>rat_of_int n\<bar> / power_int 2 (e - 52)) = n * 2 ^ k"
    unfolding q by (rule round_half_even_of_int)
  have "fl (of_int n) = Finite (sgn (rat_of_int n) * (of_int (n * 2 ^ k) * power_int 2 (e - 52)))"
    using assms e unfolding fl_def Let_def e_def[symmetric] r by simp
  also have "\<dots> = Finite (of_int n)"
    using assms by (simp add: p)
  finally show ?thesis .
qed

lemma float_of_int_exact:
  assumes "\<bar>n\<bar> < 2 ^ 53"
  shows "float_of_int n = Finite (of_int n)"
proof -
  consider "n = 0" | "0 < n" | "n < 0" by linarith
  then show ?thesis
  proof cases
    case 1
    then show ?thesis by (simp add: float_of_int_def fl_def)
  next
    case 2
    then show ?thesis using assms fl_of_nat_int[of n] by (simp add: float_of_int_def)
  next
    case 3
    then have p: "0 < - n" "- n < 2 ^ 53" using assms by simp_all
    have "fl (- x) = fneg (fl x)" for x
      by (auto simp: fl_def Let_def)
    from this[of "of_int (- n)"] fl_of_nat_int[OF p] show ?thesis
      by (simp add: float_of_int_def)
  qed
qed


subsection \<open>Sums of integers that stay below \<open>2 ^ 53\<close> are exact in any order\<close>

lemma fadd_ints:
  assumes "\<bar>a + b\<bar> < 2 ^ 53"
  shows "fadd (Finite (of_int a)) (Finite (of_int b)) = Finite (of_int (a + b))"
  using float_of_int_exact[OF assms] by (simp add: float_of_int_def)

lemma sum_abs_nonneg: "0 \<le> sum_list (map abs (ds :: int list))"
  by (rule sum_list_nonneg) auto

lemma sum_abs_ge: "\<bar>sum_list (ds :: int list)\<bar> \<le> sum_list (map abs ds)"
  by (rule sum_list_abs)

lemma foldl_fadd_ints:
  "\<bar>a\<bar> + sum_list (map abs ds) < 2 ^ 53 \<Longrightarrow>
   foldl fadd (Finite (of_int a)) (ints ds) = Finite (of_int (a + sum_list ds))"
proof (induction ds arbitrary: a)
  case Nil
  then show ?case by simp
next
  case (Cons d ds)
  have 1: "\<bar>a + d\<bar> < 2 ^ 53" using Cons.prems sum_abs_nonneg[of ds] by simp
  have 2: "\<bar>a + d\<bar> + sum_list (map abs ds) < 2 ^ 53" using Cons.prems by simp
  show ?case using Cons.IH[OF 2] fadd_ints[OF 1] by (simp add: add.assoc)
qed

lemma map2_fadd_ints:
  "length xs = length ys \<Longrightarrow> sum_list (map abs xs) + sum_list (map abs ys) < 2 ^ 53 \<Longrightarrow>
   map2 fadd (ints xs) (ints ys) = ints (map2 (+) xs ys)"
proof (induction xs ys rule: list_induct2)
  case Nil
  then show ?case by simp
next
  case (Cons x xs y ys)
  have 1: "\<bar>x + y\<bar> < 2 ^ 53"
    using Cons.prems sum_abs_nonneg[of xs] sum_abs_nonneg[of ys] by simp
  have 2: "sum_list (map abs xs) + sum_list (map abs ys) < 2 ^ 53"
    using Cons.prems by simp
  show ?case using Cons.IH[OF 2] fadd_ints[OF 1] by simp
qed

lemma sum_list_map2_add:
  "length xs = length ys \<Longrightarrow> sum_list (map2 (+) xs ys) = sum_list xs + sum_list (ys :: int list)"
  by (induction xs ys rule: list_induct2) auto

lemma sum_abs_map2_add:
  "length xs = length ys \<Longrightarrow>
   sum_list (map abs (map2 (+) xs ys)) \<le> sum_list (map abs xs) + sum_list (map abs (ys :: int list))"
  by (induction xs ys rule: list_induct2) auto

lemma sum_list_take_drop: "sum_list (take k ds) + sum_list (drop k ds) = sum_list (ds :: int list)"
  by (metis append_take_drop_id sum_list.append)

lemma sum_abs_take_drop:
  "sum_list (map abs (take k ds)) + sum_list (map abs (drop k ds)) = sum_list (map abs (ds :: int list))"
  by (metis append_take_drop_id sum_list.append map_append)

lemma acc8_ints:
  "length rs = 8 \<Longrightarrow> sum_list (map abs rs) + sum_list (map abs ds) < 2 ^ 53 \<Longrightarrow>
   \<exists>rs' rest. acc8 (ints rs) (ints ds) = (ints rs', ints rest) \<and> length rs' = 8
      \<and> sum_list rs' + sum_list rest = sum_list rs + sum_list ds
      \<and> sum_list (map abs rs') + sum_list (map abs rest) \<le> sum_list (map abs rs) + sum_list (map abs ds)"
proof (induction "length ds" arbitrary: rs ds rule: less_induct)
  case less
  show ?case
  proof (cases "length ds < 8")
    case True
    then have "acc8 (ints rs) (ints ds) = (ints rs, ints ds)"
      by (subst acc8.simps) simp
    then show ?thesis using less.prems by blast
  next
    case False
    define rs1 where "rs1 = map2 (+) rs (take 8 ds)"
    have l: "length rs = length (take 8 ds)" using False less.prems(1) by simp
    have b: "sum_list (map abs rs) + sum_list (map abs (take 8 ds)) < 2 ^ 53"
      using less.prems(2) sum_abs_take_drop[of 8 ds] sum_abs_nonneg[of "drop 8 ds"] by linarith
    have m: "map2 fadd (ints rs) (take 8 (ints ds)) = ints rs1"
      using map2_fadd_ints[OF l b] by (simp add: rs1_def take_map)
    have s: "sum_list rs1 = sum_list rs + sum_list (take 8 ds)"
      unfolding rs1_def by (rule sum_list_map2_add[OF l])
    have a: "sum_list (map abs rs1) \<le> sum_list (map abs rs) + sum_list (map abs (take 8 ds))"
      unfolding rs1_def by (rule sum_abs_map2_add[OF l])
    have l1: "length rs1 = 8" using l less.prems(1) by (simp add: rs1_def)
    have b1: "sum_list (map abs rs1) + sum_list (map abs (drop 8 ds)) < 2 ^ 53"
      using a less.prems(2) sum_abs_take_drop[of 8 ds] by linarith
    have d: "length (drop 8 ds) < length ds" using False by simp
    from less.hyps[OF d l1 b1] obtain rs' rest where
      r: "acc8 (ints rs1) (ints (drop 8 ds)) = (ints rs', ints rest)" "length rs' = 8"
         "sum_list rs' + sum_list rest = sum_list rs1 + sum_list (drop 8 ds)"
         "sum_list (map abs rs') + sum_list (map abs rest)
            \<le> sum_list (map abs rs1) + sum_list (map abs (drop 8 ds))"
      by blast
    have "acc8 (ints rs) (ints ds) = acc8 (ints rs1) (ints (drop 8 ds))"
      using False by (subst acc8.simps) (simp add: m drop_map)
    then have 1: "acc8 (ints rs) (ints ds) = (ints rs', ints rest)" using r(1) by simp
    have 2: "sum_list rs' + sum_list rest = sum_list rs + sum_list ds"
      using r(3) s sum_list_take_drop[of 8 ds] by linarith
    have 3: "sum_list (map abs rs') + sum_list (map abs rest)
               \<le> sum_list (map abs rs) + sum_list (map abs ds)"
      using r(4) a sum_abs_take_drop[of 8 ds] by linarith
    show ?thesis using 1 r(2) 2 3 by blast
  qed
qed

lemma length_eight:
  "length xs = 8 \<Longrightarrow> \<exists>a b c d e f g h. xs = [a, b, c, d, e, f, g, h]"
  by (auto simp: numeral_eq_Suc length_Suc_conv)

lemma block_sum_ints:
  assumes "8 \<le> length ds" and "sum_list (map abs ds) < 2 ^ 53"
  shows "block_sum (ints ds) = Finite (of_int (sum_list ds))"
proof -
  have l: "length (take 8 ds) = 8" using assms(1) by simp
  have b: "sum_list (map abs (take 8 ds)) + sum_list (map abs (drop 8 ds)) < 2 ^ 53"
    using assms(2) by (simp add: sum_abs_take_drop)
  from acc8_ints[OF l b] obtain rs' rest where
    r: "acc8 (ints (take 8 ds)) (ints (drop 8 ds)) = (ints rs', ints rest)" "length rs' = 8"
       "sum_list rs' + sum_list rest = sum_list (take 8 ds) + sum_list (drop 8 ds)"
       "sum_list (map abs rs') + sum_list (map abs rest)
          \<le> sum_list (map abs (take 8 ds)) + sum_list (map abs (drop 8 ds))"
    by blast
  obtain a b c d e f g h where rs: "rs' = [a, b, c, d, e, f, g, h]"
    using length_eight[OF r(2)] by blast
  have n: "0 \<le> sum_list (map abs rest)" by (rule sum_abs_nonneg)
  have bd: "\<bar>a\<bar> + \<bar>b\<bar> + \<bar>c\<bar> + \<bar>d\<bar> + \<bar>e\<bar> + \<bar>f\<bar> + \<bar>g\<bar> + \<bar>h\<bar> + sum_list (map abs rest) < 2 ^ 53"
    using r(4) assms(2) by (simp add: rs sum_abs_take_drop)
  have 1: "fadd (Finite (of_int a)) (Finite (of_int b)) = Finite (of_int (a + b))"
    using bd n by (intro fadd_ints) linarith
  have 2: "fadd (Finite (of_int c)) (Finite (of_int d)) = Finite (of_int (c + d))"
    using bd n by (intro fadd_ints) linarith
  have 3: "fadd (Finite (of_int e)) (Finite (of_int f)) = Finite (of_int (e + f))"
    using bd n by (intro fadd_ints) linarith
  have 4: "fadd (Finite (of_int g)) (Finite (of_int h)) = Finite (of_int (g + h))"
    using bd n by (intro fadd_ints) linarith
  have 5: "fadd (Finite (of_int (a + b))) (Finite (of_int (c + d))) = Finite (of_int ((a + b) + (c + d)))"
    using bd n by (intro fadd_ints) linarith
  have 6: "fadd (Finite (of_int (e + f))) (Finite (of_int (g + h))) = Finite (of_int ((e + f) + (g + h)))"
    using bd n by (intro fadd_ints) linarith
  have 7: "fadd (Finite (of_int ((a + b) + (c + d)))) (Finite (of_int ((e + f) + (g + h))))
           = Finite (of_int (((a + b) + (c + d)) + ((e + f) + (g + h))))"
    using bd n by (intro fadd_ints) linarith
  have 8: "\<bar>((a + b) + (c + d)) + ((e + f) + (g + h))\<bar> + sum_list (map abs rest) < 2 ^ 53"
    using bd by linarith
  have "block_sum (ints ds)
        = foldl fadd (Finite (of_int (((a + b) + (c + d)) + ((e + f) + (g + h))))) (ints rest)"
    unfolding block_sum_def take_map drop_map r(1) rs
    by (simp only: prod.case list.map nth_Cons_0 nth_Cons_numeral nth_Cons_Suc 1 2 3 4 5 6 7 One_nat_def
          numeral_eq_Suc pred_numeral_simps Num.BitM.simps)
  also have "\<dots> = Finite (of_int ((((a + b) + (c + d)) + ((e + f) + (g + h))) + sum_list rest))"
    by (rule foldl_fadd_ints[OF 8])
  also have "(((a + b) + (c + d)) + ((e + f) + (g + h))) + sum_list rest = sum_list ds"
    using r(3) by (simp add: rs sum_list_take_drop)
  finally show ?thesis .
qed

lemma pairwise_sum_ints:
  "sum_list (map abs ds) < 2 ^ 53 \<Longrightarrow> pairwise_sum (ints ds) = Finite (of_int (sum_list ds))"
proof (induction "length ds" arbitrary: ds rule: less_induct)
  case less
  consider "length ds < 8" | "8 \<le> length ds" "length ds \<le> 128" | "128 < length ds" by linarith
  then show ?case
  proof cases
    case 1
    have "pairwise_sum (ints ds) = foldl fadd (Finite (of_int 0)) (ints ds)"
      using 1 by (subst pairwise_sum.simps) simp
    also have "\<dots> = Finite (of_int (0 + sum_list ds))"
      using less.prems by (intro foldl_fadd_ints) simp
    finally show ?thesis by simp
  next
    case 2
    have "pairwise_sum (ints ds) = block_sum (ints ds)"
      using 2 by (subst pairwise_sum.simps) simp
    then show ?thesis using block_sum_ints[OF 2(1) less.prems] by simp
  next
    case 3
    define k where "k = length ds div 2 - length ds div 2 mod 8"
    have "length ds div 2 mod 8 < 8" by simp
    moreover have "64 \<le> length ds div 2" "length ds div 2 < length ds" using 3 by simp_all
    ultimately have k: "0 < k" "k < length ds" unfolding k_def by linarith+
    have b: "sum_list (map abs (take k ds)) < 2 ^ 53" "sum_list (map abs (drop k ds)) < 2 ^ 53"
      using less.prems sum_abs_take_drop[of k ds] sum_abs_nonneg[of "take k ds"]
        sum_abs_nonneg[of "drop k ds"] by linarith+
    have 1: "pairwise_sum (ints (take k ds)) = Finite (of_int (sum_list (take k ds)))"
      using k by (intro less.hyps b) simp
    have 2: "pairwise_sum (ints (drop k ds)) = Finite (of_int (sum_list (drop k ds)))"
      using k by (intro less.hyps b) simp
    have t: "\<bar>sum_list (take k ds) + sum_list (drop k ds)\<bar> < 2 ^ 53"
      using less.prems sum_abs_ge[of ds] by (simp add: sum_list_take_drop)
    have "pairwise_sum (ints ds)
          = fadd (pairwise_sum (ints (take k ds))) (pairwise_sum (ints (drop k ds)))"
      using 3 by (subst pairwise_sum.simps) (simp add: k_def take_map drop_map)
    also have "\<dots> = fadd (Finite (of_int (sum_list (take k ds)))) (Finite (of_int (sum_list (drop k ds))))"
      by (simp only: 1 2)
    also have "\<dots> = Finite (of_int (sum_list (take k ds) + sum_list (drop k ds)))"
      by (rule fadd_ints[OF t])
    finally show ?thesis by (simp only: sum_list_take_drop)
  qed
qed

lemma chunks_whole: "xs \<noteq> [] \<Longrightarrow> chunks (length xs) xs = [xs]"
  by (subst chunks.simps, subst chunks.simps) simp

lemma mean_ints:
  assumes "ds \<noteq> []" and "sum_list (map abs ds) < 2 ^ 53"
  shows "mean (map FltV (ints ds))
         = Inr (fdiv (Finite (of_int (sum_list ds))) (float_of_int (int (length ds))))"
proof -
  have 1: "list_all is_number (map FltV (ints ds))" by (induction ds) auto
  have 2: "\<not> list_all is_int64 (map FltV (ints ds))" using assms(1) by (cases ds) auto
  have 3: "map value64 (map FltV (ints ds)) = ints ds" by simp
  have 4: "filter (\<lambda>v. v \<noteq> NaN) (ints ds) = ints ds" by (induction ds) auto
  have 5: "map (\<lambda>v. if v = NaN then Finite 0 else v) (ints ds) = ints ds" by simp
  have 6: "numpy_sum (length ds) (ints ds) = Finite (of_int (sum_list ds))"
  proof -
    have "chunks (length (ints ds)) (ints ds) = [ints ds]"
      using assms(1) by (intro chunks_whole) simp
    then have "numpy_sum (length ds) (ints ds) = fadd (Finite (of_int 0)) (pairwise_sum (ints ds))"
      by (simp add: numpy_sum_def)
    also have "\<dots> = Finite (of_int (0 + sum_list ds))"
      unfolding pairwise_sum_ints[OF assms(2)]
      using assms(2) sum_abs_ge[of ds] by (intro fadd_ints) simp
    finally show ?thesis by simp
  qed
  show ?thesis
    unfolding mean_def Let_def 3 4 5 using 1 2 6 assms(1) by simp
qed

lemma telescope:
  "0 < n \<Longrightarrow> sum_list (map (\<lambda>i. (s :: nat \<Rightarrow> int) i - s (i - 1)) [1..<n]) = s (n - 1) - s 0"
proof (induction n)
  case 0
  then show ?case by simp
next
  case (Suc n)
  then show ?case by (cases "n = 0") auto
qed


subsection \<open>The derived columns and the metrics\<close>

lemma wrap64_small: "\<bar>n\<bar> < 2 ^ 53 \<Longrightarrow> wrap64 n = n"
  by (simp add: wrap64_def)

lemma zip_tl_nth:
  "zip (tl xs) xs = map (\<lambda>i. (xs ! i, xs ! (i - 1))) [1..<length xs]"
  by (rule nth_equalityI) (auto simp: nth_tl)

lemma len_sort_values: "sort_values df c = Inr df1 \<Longrightarrow> len df1 = len df"
  by (auto simp: sort_values_def len_def sum_length_filter_compl split: if_splits)

lemma length_int64_values: "int64_values col = Inr xs \<Longrightarrow> length xs = length col"
proof (induction col arbitrary: xs rule: int64_values.induct)
  case (2 n cs)
  then show ?case by (cases "int64_values cs") auto
qed auto

lemma mean_floats: "\<exists>m. mean (map FltV xs) = Inr m"
proof -
  have "list_all is_number (map FltV xs)" by (induction xs) auto
  then show ?thesis by (simp add: mean_def Let_def)
qed

lemma columns_sort_values: "sort_values df c = Inr df1 \<Longrightarrow> columns df1 = columns df"
  by (auto simp: sort_values_def split: if_splits)

lemma columns_setcolumn: "k \<in> set (columns df) \<Longrightarrow> k \<in> set (columns (setcolumn df c vs))"
  by (simp add: setcolumn_def)

lemma getitem_present: "k \<in> set (columns df) \<Longrightarrow> \<exists>x. getitem df k = Inr x"
  by (simp add: getitem_def)

text \<open>
  Claim C6, amended. For a playlist table with at least two records, a date column,
  an \<open>avg_popularity\<close> column and an integer \<open>saves\<close> column of counts below
  \<open>2 ^ 53\<close>, growth tracking returns, over the table sorted by date: \<open>daily_growth\<close>
  with 0 in the first row and \<open>saves[i] - saves[i-1]\<close> in row \<open>i\<close>; \<open>growth_rate\<close>
  with 0 in the first row and in row \<open>i\<close> the binary64 value of
  \<open>(saves[i] / saves[i-1] - 1) * 100\<close>, 0 where that is NaN; the total growth, last
  minus first; the mean of \<open>daily_growth\<close> without its first row, which is the
  binary64 quotient of the total growth by the number of rows less one whenever the
  absolute day-to-day changes add up to less than \<open>2 ^ 53\<close>; the overall growth rate,
  the binary64 value of \<open>(last / first - 1) * 100\<close>; and the number of rows.
\<close>

theorem growth_tracking_values:
  assumes "1 < len df" and "sort_values df ''date'' = Inr df1"
    and "getitem df1 ''saves'' = Inr col" and "int64_values col = Inr saves"
    and "''avg_popularity'' \<in> set (columns df)"
    and "\<forall>x \<in> set saves. 0 \<le> x \<and> x < 2 ^ 53"
  shows "\<exists>g. growth_tracking df = Some (Inr g)
           \<and> daily_growth g
             = Finite 0 # map (\<lambda>i. Finite (of_int (saves ! i - saves ! (i - 1)))) [1..<len df]
           \<and> growth_rates g
             = Finite 0 # map (\<lambda>i. let p = percent_change (saves ! i) (saves ! (i - 1))
                                     in if p = NaN then Finite 0 else p) [1..<len df]
           \<and> total_growth g = last saves - hd saves
           \<and> mean (map FltV (tl (daily_growth g))) = Inr (avg_daily_growth g)
           \<and> (sum_list (map (\<lambda>i. \<bar>saves ! i - saves ! (i - 1)\<bar>) [1..<len df]) < 2 ^ 53 \<longrightarrow>
                avg_daily_growth g
                = fdiv (Finite (of_int (last saves - hd saves))) (float_of_int (int (len df) - 1)))
           \<and> growth_rate g = percent_change (last saves) (hd saves)
           \<and> days_tracked g = len df"
proof -
  have n: "length saves = len df"
    using assms(2,3,4) len_sort_values[OF assms(2)] length_int64_values[OF assms(4)]
    by (auto simp: getitem_def len_def split: if_splits)
  then have ne: "saves \<noteq> []" using assms(1) by auto
  have b: "\<And>i. i < length saves \<Longrightarrow> 0 \<le> saves ! i \<and> saves ! i < 2 ^ 53"
    using assms(6) by simp
  have d: "\<And>i j. i < length saves \<Longrightarrow> j < length saves \<Longrightarrow> \<bar>saves ! i - saves ! j\<bar> < 2 ^ 53"
    using b by (smt (verit))
  have e: "float_of_int (wrap64 (saves ! i - saves ! (i - 1)))
           = Finite (of_int (saves ! i - saves ! (i - 1)))" if "i < length saves" for i
  proof -
    have "\<bar>saves ! i - saves ! (i - 1)\<bar> < 2 ^ 53" using d[of i "i - 1"] that by simp
    then show ?thesis using wrap64_small float_of_int_exact by metis
  qed
  define ds where "ds = map (\<lambda>i. saves ! i - saves ! (i - 1)) [1..<len df]"
  have dg: "fillna (diff saves)
            = Finite 0 # map (\<lambda>i. Finite (of_int (saves ! i - saves ! (i - 1)))) [1..<len df]"
    using ne e by (simp add: diff_def fillna_def zip_tl_nth n[symmetric])
  have gr: "fillna (map (\<lambda>x. fmul x (Finite 100)) (pct_change saves))
            = Finite 0 # map (\<lambda>i. let p = percent_change (saves ! i) (saves ! (i - 1))
                                     in if p = NaN then Finite 0 else p) [1..<len df]"
    using ne by (simp add: pct_change_def fillna_def zip_tl_nth n[symmetric] percent_change_def Let_def)
  have hl: "hd saves = saves ! 0" "last saves = saves ! (length saves - 1)"
    using ne by (simp_all add: hd_conv_nth last_conv_nth)
  then have tg: "wrap64 (last saves - hd saves) = last saves - hd saves"
    using d[of "length saves - 1" 0] ne by (simp add: wrap64_small)
  obtain m where m: "mean (map FltV (tl (fillna (diff saves)))) = Inr m"
    using mean_floats by blast
  have tl_dg: "tl (fillna (diff saves)) = ints ds"
    unfolding dg ds_def by (simp add: o_def)
  have avg: "m = fdiv (Finite (of_int (last saves - hd saves))) (float_of_int (int (len df) - 1))"
    if v: "sum_list (map (\<lambda>i. \<bar>saves ! i - saves ! (i - 1)\<bar>) [1..<len df]) < 2 ^ 53"
  proof -
    have 1: "ds \<noteq> []" using assms(1) by (simp add: ds_def)
    have 2: "sum_list (map abs ds) < 2 ^ 53" using v by (simp add: ds_def o_def)
    have 3: "sum_list ds = last saves - hd saves"
      unfolding ds_def hl n using telescope[of "len df" "\<lambda>i. saves ! i"] assms(1) by simp
    have 4: "int (length ds) = int (len df) - 1" using assms(1) by (simp add: ds_def)
    show ?thesis using m mean_ints[OF 1 2] unfolding tl_dg 3 4 by simp
  qed
  have l2: "len (setcolumn df1 ''daily_growth'' vs) = min (len df1) (length vs)" for vs
    by (simp add: setcolumn_def len_def)
  have l3: "len (setcolumn df2 ''growth_rate'' vs) = min (len df2) (length vs)" for df2 vs
    by (simp add: setcolumn_def len_def)
  have ld: "length (fillna (diff saves)) = len df"
    unfolding dg using assms(1) by simp
  have lg: "length (fillna (map (\<lambda>x. fmul x (Finite 100)) (pct_change saves))) = len df"
    unfolding gr using assms(1) by simp
  have days: "len (setcolumn (setcolumn df1 ''daily_growth'' (map FltV (fillna (diff saves))))
                  ''growth_rate'' (map FltV (fillna (map (\<lambda>x. fmul x (Finite 100)) (pct_change saves)))))
              = len df"
    using ld lg len_sort_values[OF assms(2)] by (simp add: l2 l3)
  have "''avg_popularity'' \<in> set (columns df1)"
    using assms(5) columns_sort_values[OF assms(2)] by simp
  then obtain ap where ap:
    "getitem (setcolumn (setcolumn df1 ''daily_growth'' (map FltV (fillna (diff saves))))
                  ''growth_rate'' (map FltV (fillna (map (\<lambda>x. fmul x (Finite 100)) (pct_change saves)))))
             ''avg_popularity'' = Inr ap"
    using getitem_present columns_setcolumn by meson
  have g: "growth_tracking df = Some (Inr
             \<lparr>hist_df = setcolumn (setcolumn df1 ''daily_growth'' (map FltV (fillna (diff saves))))
                  ''growth_rate'' (map FltV (fillna (map (\<lambda>x. fmul x (Finite 100)) (pct_change saves)))),
              daily_growth = fillna (diff saves),
              growth_rates = fillna (map (\<lambda>x. fmul x (Finite 100)) (pct_change saves)),
              total_growth = wrap64 (last saves - hd saves),
              avg_daily_growth = m,
              growth_rate = percent_change (last saves) (hd saves),
              days_tracked = len df\<rparr>)"
    using assms(1-4) m ap days
    by (simp add: growth_tracking_def Let_def percent_change_def)
  show ?thesis
    unfolding g using m dg gr tg avg by simp
qed


text \<open>
  The example of the specification. The third growth rate is
  \<open>- (10 - 2 ^ -49)\<close>, which prints as \<^verbatim>\<open>-9.999999999999998\<close>, and the overall
  growth rate is \<open>35 + 2 ^ -47\<close>, which prints as \<^verbatim>\<open>35.00000000000001\<close> and is
  shown as \<^verbatim>\<open>35.0%\<close>.
\<close>

theorem growth_tracking_values_witness:
  "1 < len trend_example
   \<and> sort_values trend_example ''date'' = Inr trend_sorted
   \<and> getitem trend_sorted ''saves'' = Inr [IntV 100, IntV 150, IntV 135]
   \<and> int64_values [IntV 100, IntV 150, IntV 135] = Inr [100, 150, 135]
   \<and> ''avg_popularity'' \<in> set (columns trend_example)
   \<and> list_all (\<lambda>x. 0 \<le> x \<and> x < 2 ^ 53) [100, 150, 135 :: int]
   \<and> \<bar>150 - 100 :: int\<bar> + \<bar>135 - 150\<bar> < 2 ^ 53
   \<and> (\<exists>g. growth_tracking trend_example = Some (Inr g)
          \<and> daily_growth g = [Finite 0, Finite 50, Finite (- 15)]
          \<and> growth_rates g = [Finite 0, Finite 50, Finite (- (10 - 1 / 2 ^ 49))]
          \<and> total_growth g = 35
          \<and> mean [FltV (Finite 50), FltV (Finite (- 15))] = Inr (avg_daily_growth g)
          \<and> avg_daily_growth g = Finite (35 / 2)
          \<and> growth_rate g = Finite (35 + 1 / 2 ^ 47)
          \<and> days_tracked g = 3)"
proof -
  have a1: "1 < len trend_example" by code_simp
  have a2: "sort_values trend_example ''date'' = Inr trend_sorted" by code_simp
  have a3: "getitem trend_sorted ''saves'' = Inr [IntV 100, IntV 150, IntV 135]" by code_simp
  have a4: "int64_values [IntV 100, IntV 150, IntV 135] = Inr [100, 150, 135]" by simp
  have a5: "''avg_popularity'' \<in> set (columns trend_example)" by (simp add: trend_example_def)
  have a6: "\<forall>x \<in> set [100, 150, 135 :: int]. 0 \<le> x \<and> x < 2 ^ 53" by simp
  have p: "percent_change 150 100 = Finite 50"
    "percent_change 135 150 = Finite (- (10 - 1 / 2 ^ 49))"
    "percent_change 135 100 = Finite (35 + 1 / 2 ^ 47)"
    by code_simp+
  have l: "len trend_example = 3" by code_simp
  have q: "fdiv (Finite 35) (float_of_int 2) = Finite (35 / 2)" by code_simp
  have u: "[Suc 0..<3] = [Suc 0, 2]" by code_simp
  from growth_tracking_values[OF a1 a2 a3 a4 a5 a6] obtain g where
    g: "growth_tracking trend_example = Some (Inr g)"
      "daily_growth g
         = Finite 0 # map (\<lambda>i. Finite (of_int ([100, 150, 135] ! i - [100, 150, 135] ! (i - 1)))) [1..<len trend_example]"
      "growth_rates g
         = Finite 0 # map (\<lambda>i. let p = percent_change ([100, 150, 135] ! i) ([100, 150, 135] ! (i - 1))
                                     in if p = NaN then Finite 0 else p) [1..<len trend_example]"
      "total_growth g = last [100, 150, 135] - hd [100, 150, 135]"
      "mean (map FltV (tl (daily_growth g))) = Inr (avg_daily_growth g)"
      "sum_list (map (\<lambda>i. \<bar>[100, 150, 135] ! i - [100, 150, 135 :: int] ! (i - 1)\<bar>) [1..<len trend_example]) < 2 ^ 53 \<longrightarrow>
         avg_daily_growth g
         = fdiv (Finite (of_int (last [100, 150, 135] - hd [100, 150, 135]))) (float_of_int (int (len trend_example) - 1))"
      "growth_rate g = percent_change (last [100, 150, 135]) (hd [100, 150, 135])"
      "days_tracked g = len trend_example"
    by blast
  have dg: "daily_growth g = [Finite 0, Finite 50, Finite (- 15)]"
    using g(2) by (simp add: l u)
  have gr: "growth_rates g = [Finite 0, Finite 50, Finite (- (10 - 1 / 2 ^ 49))]"
    using g(3) p by (simp add: l u)
  have mn: "mean [FltV (Finite 50), FltV (Finite (- 15))] = Inr (avg_daily_growth g)"
    using g(5) by (simp add: dg)
  have av: "avg_daily_growth g = Finite (35 / 2)"
    using g(6) q by (simp add: l u)
  have "growth_tracking trend_example = Some (Inr g)
          \<and> daily_growth g = [Finite 0, Finite 50, Finite (- 15)]
          \<and> growth_rates g = [Finite 0, Finite 50, Finite (- (10 - 1 / 2 ^ 49))]
          \<and> total_growth g = 35
          \<and> mean [FltV (Finite 50), FltV (Finite (- 15))] = Inr (avg_daily_growth g)
          \<and> avg_daily_growth g = Finite (35 / 2)
          \<and> growth_rate g = Finite (35 + 1 / 2 ^ 47)
          \<and> days_tracked g = 3"
    using g(1,4,7,8) dg gr mn av p(3) l by simp
  then show ?thesis
    using a1 a2 a3 a4 a5 by auto
qed

text \<open>
  So the growth rates of the example are not \<open>[0, 50, -10]\<close>: \<open>135 / 150\<close> is not a
  binary64 number, and the rounding error of the quotient survives the subtraction.
  And \<open>daily_growth\<close> is a binary64 column: from 0 to \<open>2 ^ 53 + 1\<close> saves it holds
  \<open>2 ^ 53\<close>, not the difference.
\<close>

theorem growth_rate_rounding_counterexample:
  "map_option (map_sum id growth_rates) (growth_tracking trend_example)
     = Some (Inr [Finite 0, Finite 50, Finite (- (10 - 1 / 2 ^ 49))])
   \<and> Finite (- (10 - 1 / 2 ^ 49)) \<noteq> Finite (- 10)
   \<and> map_option (map_sum id daily_growth) (growth_tracking trend_large)
     = Some (Inr [Finite 0, Finite 9007199254740992])
   \<and> Finite 9007199254740992 \<noteq> Finite 9007199254740993"
  by code_simp


end
